theory Spec2Isabelle
  imports Main
begin

section \<open>Solid: UDisks2 storage access and the fstab/mtab mount-table cache\<close>

text \<open>
  The development embeds two parts of the sources:
  \<^item> \<open>udisksstorageaccess.cpp\<close>: the class \<open>StorageAccess\<close> with its members
    \<open>m_isAccessible\<close>, \<open>m_setupInProgress\<close>, \<open>m_teardownInProgress\<close>,
    \<open>m_passphraseRequested\<close>, \<open>m_lastReturnObject\<close>;
  \<^item> \<open>fstabhandling.cpp\<close> (second half of \<open>udisksstoragedrive.cpp\<close>): the class
    \<open>FstabHandling\<close> with its caches and validity flags.

  Every member function takes the object's state and returns the new state. What a
  function does to the outside (signals, broadcasts, D-Bus method calls) is returned as a
  list of events in program order. What a function reads from the outside (device
  properties, the introspection reply, the mount-table files) is taken from an
  environment argument.
\<close>

subsection \<open>The environment of a StorageAccess object\<close>

text \<open>
  Modelled from the spec: the enumeration \<open>Solid::ErrorType\<close>, whose declaration
  (\<open>solidnamespace.h\<close>) is not among the sources. The spec distinguishes success (no
  error), user-canceled, and the error kinds that daemon errors are mapped to. The
  sources name two members: \<open>ifaces/device.h\<close> has \<open>Solid::NoError\<close> as the default
  error of \<open>broadcastActionDone\<close> (with an empty error string), and \<open>passphraseReply\<close>
  passes \<open>Solid::UserCanceled\<close>.
\<close>

datatype ErrorType =
  NoError | UnauthorizedOperation | DeviceBusy | OperationFailed
  | UserCanceled | InvalidOption | MissingDriver

text \<open>
  What a \<open>Device\<close> handle for one object path answers: \<open>isMounted()\<close>,
  \<open>isEncryptedContainer()\<close>, \<open>isEncryptedCleartext()\<close>, \<open>isOpticalDisc()\<close>, \<open>drivePath()\<close>
  and the properties read with \<open>prop(...)\<close>.
\<close>

record device_props =
  isMounted :: bool
  isEncryptedContainer :: bool
  isEncryptedCleartext :: bool
  isOpticalDisc :: bool
  drivePath :: string
  IdType :: string
  CryptoBackingDevice :: string
  MediaRemovable :: bool
  MediaAvailable :: bool
  CanPowerOff :: bool

text \<open>
  The environment of one call:
  \<^item> \<open>udi\<close>: \<open>m_device->udi()\<close>;
  \<open>device\<close>: the \<open>Device\<close> handle of every object path (\<open>m_device\<close> is \<open>device (udi)\<close>);
  \<^item> \<open>introspect\<close>: the reply of the blocking \<open>Introspect\<close> call of \<open>clearTextPath()\<close>,
    \<open>None\<close> when the reply is not valid, otherwise the \<open>node\<close> elements in document order,
    each with its \<open>name\<close> attribute if it has one;
  \<^item> \<open>UD2_DBUS_PATH_BLOCKDEVICES\<close>: the constant of \<open>udisks2.h\<close>;
  \<^item> \<open>callWithCallbackResult\<close>: what \<open>QDBusConnection::callWithCallback\<close> returns;
  \<^item> \<open>baseService\<close>, \<open>focusWindow\<close>, \<open>applicationName\<close>, \<open>dialogReplyValid\<close>: the session
    bus name, the focus window's id (\<open>None\<close> for \<open>nullptr\<close>), the application name and
    whether the reply of \<open>showPassphraseDialog\<close> is valid;
  \<^item> \<open>errorToSolidError\<close>, \<open>errorToString\<close>: the two mappings of \<open>Device\<close> from a D-Bus
    error name.
\<close>

record env =
  udi :: string
  device :: "string \<Rightarrow> device_props"
  introspect :: "string option list option"
  UD2_DBUS_PATH_BLOCKDEVICES :: string
  callWithCallbackResult :: bool
  baseService :: string
  focusWindow :: "nat option"
  applicationName :: string
  dialogReplyValid :: bool
  errorToSolidError :: "string \<Rightarrow> ErrorType"
  errorToString :: "string \<Rightarrow> string"

abbreviation m_device :: "env \<Rightarrow> device_props" where
  "m_device e \<equiv> device e (udi e)"

subsection \<open>Events\<close>

text \<open>
  The method calls sent to the UDisks2 daemon: the object path they are sent to and their
  arguments (\<open>Mount\<close> carries its options map, \<open>Unlock\<close> the passphrase; the other
  option maps are empty).
\<close>

datatype dbus_call =
  Mount string "(string \<times> string) list"
  | Unmount string
  | Unlock string string
  | Lock string
  | Eject string
  | PowerOff string

datatype event =
  BroadcastActionRequested string
  | BroadcastActionDone string ErrorType string
  | InvalidateCache
  | AccessibilityChanged bool string
  | SetupRequested string
  | SetupDone ErrorType string string
  | TeardownRequested string
  | TeardownDone ErrorType string string
  | CallWithCallback dbus_call
  | CallNoBlock dbus_call
  | RegisterObject string
  | UnregisterObject string
  | ShowPassphraseDialog string string string nat string

subsection \<open>The state of a StorageAccess object\<close>

text \<open>
  \<open>number\<close> is the function-static counter of \<open>generateReturnObjectPath\<close>, a 32-bit
  \<open>QAtomicInt\<close> that starts at 1.
\<close>

record StorageAccess =
  m_isAccessible :: bool
  m_setupInProgress :: bool
  m_teardownInProgress :: bool
  m_passphraseRequested :: bool
  m_lastReturnObject :: string
  number :: int

subsection \<open>Accessibility\<close>

definition isLuksDevice :: "env \<Rightarrow> bool" where
  "isLuksDevice e = isEncryptedContainer (m_device e)"

text \<open>The loop of \<open>clearTextPath\<close> over the \<open>node\<close> elements of the introspection reply.\<close>

fun clearTextPath_loop :: "env \<Rightarrow> string option list \<Rightarrow> string" where
  "clearTextPath_loop e [] = []"
| "clearTextPath_loop e (None # nodes) = clearTextPath_loop e nodes"
| "clearTextPath_loop e (Some name # nodes) =
     (let holder = UD2_DBUS_PATH_BLOCKDEVICES e @ ''/'' @ name
      in if udi e = CryptoBackingDevice (device e holder) then holder
         else clearTextPath_loop e nodes)"

definition clearTextPath :: "env \<Rightarrow> string" where
  "clearTextPath e =
     (case introspect e of
        None \<Rightarrow> []
      | Some nodes \<Rightarrow> clearTextPath_loop e nodes)"

definition isAccessible :: "env \<Rightarrow> bool" where
  "isAccessible e =
     (if isLuksDevice e then
        (let path = clearTextPath e
         in if path = [] \<or> path = ''/'' then False
            else isMounted (device e path))
      else isMounted (m_device e))"

definition isEncrypted :: "env \<Rightarrow> bool" where
  "isEncrypted e = (isLuksDevice e \<or> isEncryptedCleartext (m_device e))"

definition updateCache :: "env \<Rightarrow> StorageAccess \<Rightarrow> StorageAccess" where
  "updateCache e s = s\<lparr>m_isAccessible := isAccessible e\<rparr>"

definition checkAccessibility :: "env \<Rightarrow> StorageAccess \<Rightarrow> StorageAccess \<times> event list" where
  "checkAccessibility e s =
     (let old_isAccessible = m_isAccessible s;
          s1 = updateCache e s
      in if old_isAccessible \<noteq> m_isAccessible s1
         then (s1, [AccessibilityChanged (m_isAccessible s1) (udi e)])
         else (s1, []))"

text \<open>\<open>checkAccessibility\<close> called \<open>n\<close> times in a row in the same environment.\<close>

fun checkAccessibility_times :: "nat \<Rightarrow> env \<Rightarrow> StorageAccess \<Rightarrow> StorageAccess \<times> event list" where
  "checkAccessibility_times 0 e s = (s, [])"
| "checkAccessibility_times (Suc n) e s =
     (let (s1, evs1) = checkAccessibility e s;
          (s2, evs2) = checkAccessibility_times n e s1
      in (s2, evs1 @ evs2))"

subsection \<open>Daemon calls\<close>

definition mount :: "env \<Rightarrow> StorageAccess \<Rightarrow> bool \<times> StorageAccess \<times> event list" where
  "mount e s =
     (let path = udi e;
          path = (if isLuksDevice e then
                    (let ctPath = clearTextPath e in if ctPath \<noteq> [] then ctPath else path)
                  else path);
          options = (if IdType (m_device e) = ''vfat'' then [(''options'', ''flush'')] else [])
      in (callWithCallbackResult e, s, [CallWithCallback (Mount path options)]))"

text \<open>The timeout \<open>s_unmountTimeout\<close> of the \<open>Unmount\<close> call is not modelled.\<close>

definition unmount :: "env \<Rightarrow> StorageAccess \<Rightarrow> bool \<times> StorageAccess \<times> event list" where
  "unmount e s =
     (let path = udi e;
          path = (if isLuksDevice e then
                    (let ctPath = clearTextPath e in if ctPath \<noteq> [] then ctPath else path)
                  else path)
      in (callWithCallbackResult e, s, [CallWithCallback (Unmount path)]))"

definition callCryptoSetup :: "env \<Rightarrow> string \<Rightarrow> StorageAccess \<Rightarrow> StorageAccess \<times> event list" where
  "callCryptoSetup e passphrase s = (s, [CallWithCallback (Unlock (udi e) passphrase)])"

definition callCryptoTeardown :: "env \<Rightarrow> bool \<Rightarrow> StorageAccess \<Rightarrow> bool \<times> StorageAccess \<times> event list" where
  "callCryptoTeardown e actOnParent s =
     (callWithCallbackResult e, s,
      [CallWithCallback (Lock (if actOnParent then CryptoBackingDevice (m_device e) else udi e))])"

subsection \<open>The passphrase round trip\<close>

text \<open>\<open>QString::number\<close> of an \<open>int\<close>: decimal digits, with a minus sign when negative.\<close>

fun number_nat :: "nat \<Rightarrow> string" where
  "number_nat n =
     (if n < 10 then [''0123456789'' ! n]
      else number_nat (n div 10) @ [''0123456789'' ! (n mod 10)])"

declare number_nat.simps [simp del]

definition QString_number :: "int \<Rightarrow> string" where
  "QString_number i = (if i < 0 then CHR ''-'' # number_nat (nat (- i)) else number_nat (nat i))"

text \<open>
  \<open>number++\<close> on the static 32-bit counter: the old value is used, the stored value wraps
  from \<open>2^31 - 1\<close> to \<open>- 2^31\<close>.
\<close>

definition generateReturnObjectPath :: "StorageAccess \<Rightarrow> string \<times> StorageAccess" where
  "generateReturnObjectPath s =
     (''/org/kde/solid/UDisks2StorageAccess_'' @ QString_number (number s),
      s\<lparr>number := (if number s = 2147483647 then - 2147483648 else number s + 1)\<rparr>)"

definition requestPassphrase :: "env \<Rightarrow> StorageAccess \<Rightarrow> bool \<times> StorageAccess \<times> event list" where
  "requestPassphrase e s =
     (let returnService = baseService e;
          (obj, s1) = generateReturnObjectPath s;
          s2 = s1\<lparr>m_lastReturnObject := obj\<rparr>;
          wId = (case focusWindow e of None \<Rightarrow> 0 | Some w \<Rightarrow> w);
          appId = applicationName e;
          s3 = s2\<lparr>m_passphraseRequested := dialogReplyValid e\<rparr>
      in (m_passphraseRequested s3, s3,
          [RegisterObject obj, ShowPassphraseDialog (udi e) returnService obj wId appId]))"

definition passphraseReply :: "env \<Rightarrow> string \<Rightarrow> StorageAccess \<Rightarrow> StorageAccess \<times> event list" where
  "passphraseReply e passphrase s =
     (if m_passphraseRequested s then
        (let s1 = s\<lparr>m_passphraseRequested := False\<rparr>
         in if passphrase \<noteq> [] then
              (let (s2, evs) = callCryptoSetup e passphrase s1
               in (s2, UnregisterObject (m_lastReturnObject s) # evs))
            else
              (s1\<lparr>m_setupInProgress := False\<rparr>,
               [UnregisterObject (m_lastReturnObject s),
                BroadcastActionDone ''setup'' UserCanceled []]))
      else (s, []))"

subsection \<open>Setup and teardown\<close>

text \<open>\<open>StorageAccess::setup()\<close> and \<open>StorageAccess::teardown()\<close>.\<close>

definition StorageAccess_setup :: "env \<Rightarrow> StorageAccess \<Rightarrow> bool \<times> StorageAccess \<times> event list" where
  "StorageAccess_setup e s =
     (if m_teardownInProgress s \<or> m_setupInProgress s then (False, s, [])
      else
        (let s1 = s\<lparr>m_setupInProgress := True\<rparr>;
             (r, s2, evs) =
               (if isEncryptedContainer (m_device e) \<and> clearTextPath e = []
                then requestPassphrase e s1
                else mount e s1)
         in (r, s2, BroadcastActionRequested ''setup'' # evs)))"

definition StorageAccess_teardown :: "env \<Rightarrow> StorageAccess \<Rightarrow> bool \<times> StorageAccess \<times> event list" where
  "StorageAccess_teardown e s =
     (if m_teardownInProgress s \<or> m_setupInProgress s then (False, s, [])
      else
        (let s1 = s\<lparr>m_teardownInProgress := True\<rparr>;
             (r, s2, evs) = unmount e s1
         in (r, s2, BroadcastActionRequested ''teardown'' # evs)))"

subsection \<open>Completion of a daemon call\<close>

text \<open>
  The calls sent to the parent drive at the end of a teardown. The guard
  \<open>!drivePath.isEmpty() || drivePath != "/"\<close> is kept as written.
\<close>

definition ejectOrPowerOff :: "env \<Rightarrow> event list" where
  "ejectOrPowerOff e =
     (let drivePath = drivePath (m_device e)
      in if drivePath \<noteq> [] \<or> drivePath \<noteq> ''/'' then
           (let drive = device e drivePath
            in if MediaRemovable drive \<and> MediaAvailable drive \<and> \<not> isOpticalDisc (m_device e)
               then [CallNoBlock (Eject drivePath)]
               else if CanPowerOff drive \<and> \<not> isOpticalDisc (m_device e)
               then [CallNoBlock (PowerOff drivePath)]
               else [])
         else [])"

definition slotDBusReply :: "env \<Rightarrow> StorageAccess \<Rightarrow> StorageAccess \<times> event list" where
  "slotDBusReply e s =
     (if m_setupInProgress s then
        (if isLuksDevice e \<and> \<not> isAccessible e then
           (let (r, s1, evs) = mount e s in (s1, evs))
         else
           (let s1 = s\<lparr>m_setupInProgress := False\<rparr>;
                (s2, evs) = checkAccessibility e s1
            in (s2, [InvalidateCache, BroadcastActionDone ''setup'' NoError []] @ evs)))
      else if m_teardownInProgress s then
        (let ctPath = clearTextPath e
         in if isLuksDevice e \<and> ctPath \<noteq> [] \<and> ctPath \<noteq> ''/'' then
              (let (r, s1, evs) = callCryptoTeardown e False s in (s1, evs))
            else if ctPath \<noteq> [] \<and> ctPath \<noteq> ''/'' then
              (let (r, s1, evs) = callCryptoTeardown e True s in (s1, evs))
            else
              (let evs1 = ejectOrPowerOff e;
                   s1 = s\<lparr>m_teardownInProgress := False\<rparr>;
                   (s2, evs2) = checkAccessibility e s1
               in (s2, evs1 @ [InvalidateCache, BroadcastActionDone ''teardown'' NoError []] @ evs2)))
      else (s, []))"

definition slotDBusError :: "env \<Rightarrow> string \<Rightarrow> string \<Rightarrow> StorageAccess \<Rightarrow> StorageAccess \<times> event list" where
  "slotDBusError e name message s =
     (if m_setupInProgress s then
        (let s1 = s\<lparr>m_setupInProgress := False\<rparr>;
             (s2, evs) = checkAccessibility e s1
         in (s2, BroadcastActionDone ''setup'' (errorToSolidError e name)
                   (errorToString e name @ '': '' @ message) # evs))
      else if m_teardownInProgress s then
        (let s1 = s\<lparr>m_teardownInProgress := False\<rparr>;
             (s2, evs) = checkAccessibility e s1
         in (s2, BroadcastActionDone ''teardown'' (errorToSolidError e name)
                   (errorToString e name @ '': '' @ message) # evs))
      else (s, []))"

subsection \<open>Slots for the broadcasts of the same device\<close>

definition slotSetupRequested :: "env \<Rightarrow> StorageAccess \<Rightarrow> StorageAccess \<times> event list" where
  "slotSetupRequested e s = (s\<lparr>m_setupInProgress := True\<rparr>, [SetupRequested (udi e)])"

definition slotSetupDone :: "env \<Rightarrow> ErrorType \<Rightarrow> string \<Rightarrow> StorageAccess \<Rightarrow> StorageAccess \<times> event list" where
  "slotSetupDone e error errorString s =
     (let s1 = s\<lparr>m_setupInProgress := False\<rparr>;
          (s2, evs) = checkAccessibility e s1
      in (s2, evs @ [SetupDone error errorString (udi e)]))"

definition slotTeardownRequested :: "env \<Rightarrow> StorageAccess \<Rightarrow> StorageAccess \<times> event list" where
  "slotTeardownRequested e s = (s\<lparr>m_teardownInProgress := True\<rparr>, [TeardownRequested (udi e)])"

definition slotTeardownDone :: "env \<Rightarrow> ErrorType \<Rightarrow> string \<Rightarrow> StorageAccess \<Rightarrow> StorageAccess \<times> event list" where
  "slotTeardownDone e error errorString s =
     (let s1 = s\<lparr>m_teardownInProgress := False\<rparr>;
          (s2, evs) = checkAccessibility e s1
      in (s2, evs @ [TeardownDone error errorString (udi e)]))"

subsection \<open>Classifying events\<close>

fun is_daemon_call :: "event \<Rightarrow> bool" where
  "is_daemon_call (CallWithCallback c) = True"
| "is_daemon_call (CallNoBlock c) = True"
| "is_daemon_call ev = False"

fun is_action_done :: "event \<Rightarrow> bool" where
  "is_action_done (BroadcastActionDone a err msg) = True"
| "is_action_done ev = False"

subsection \<open>One setup, from the call to its completion\<close>

text \<open>
  After \<open>setup()\<close> has returned, the object is only entered through its slots: the
  passphrase dialog calls \<open>passphraseReply\<close>; the bus delivers, for a call made with
  \<open>callWithCallback\<close>, either \<open>slotDBusReply\<close> or \<open>slotDBusError\<close>; the device's
  \<open>changed()\<close> signal runs \<open>checkAccessibility\<close>; the broadcasts registered in
  \<open>connectDBusSignals\<close> run the four \<open>slotSetup...\<close>/\<open>slotTeardown...\<close> slots.

  A stimulus is one such entry. \<open>ReplyOk k\<close> and \<open>ReplyError k name message\<close> answer the
  \<open>k\<close>-th call that is still outstanding; they cannot happen when there is no such call.
  Every call made with \<open>callWithCallback\<close> is kept as outstanding, whatever
  \<open>callWithCallback\<close> returned.
\<close>

datatype stimulus =
  PassphraseReply string
  | ReplyOk nat
  | ReplyError nat string string
  | DeviceChanged
  | SignalSetupRequested
  | SignalSetupDone ErrorType string
  | SignalTeardownRequested
  | SignalTeardownDone ErrorType string

text \<open>
  What is observed of a run: the events of the object, and the completions of its
  outstanding calls (\<open>Completed\<close> for a success reply, \<open>Failed\<close> for an error reply).
\<close>

datatype observation =
  Did event
  | Completed dbus_call
  | Failed dbus_call

fun callbacks_of :: "event list \<Rightarrow> dbus_call list" where
  "callbacks_of [] = []"
| "callbacks_of (CallWithCallback c # evs) = c # callbacks_of evs"
| "callbacks_of (ev # evs) = callbacks_of evs"

definition remove_nth :: "nat \<Rightarrow> 'a list \<Rightarrow> 'a list" where
  "remove_nth k xs = take k xs @ drop (Suc k) xs"

type_synonym system = "StorageAccess \<times> dbus_call list"

definition after_slot :: "dbus_call list \<Rightarrow> observation list \<Rightarrow> StorageAccess \<times> event list
    \<Rightarrow> (system \<times> observation list) option" where
  "after_slot pend pre r = Some ((fst r, pend @ callbacks_of (snd r)), pre @ map Did (snd r))"

fun deliver :: "env \<Rightarrow> stimulus \<Rightarrow> system \<Rightarrow> (system \<times> observation list) option" where
  "deliver e (PassphraseReply passphrase) (s, pend) =
     after_slot pend [] (passphraseReply e passphrase s)"
| "deliver e (ReplyOk k) (s, pend) =
     (if k < length pend
      then after_slot (remove_nth k pend) [Completed (pend ! k)] (slotDBusReply e s)
      else None)"
| "deliver e (ReplyError k name message) (s, pend) =
     (if k < length pend
      then after_slot (remove_nth k pend) [Failed (pend ! k)] (slotDBusError e name message s)
      else None)"
| "deliver e DeviceChanged (s, pend) = after_slot pend [] (checkAccessibility e s)"
| "deliver e SignalSetupRequested (s, pend) = after_slot pend [] (slotSetupRequested e s)"
| "deliver e (SignalSetupDone error errorString) (s, pend) =
     after_slot pend [] (slotSetupDone e error errorString s)"
| "deliver e SignalTeardownRequested (s, pend) = after_slot pend [] (slotTeardownRequested e s)"
| "deliver e (SignalTeardownDone error errorString) (s, pend) =
     after_slot pend [] (slotTeardownDone e error errorString s)"

text \<open>A run: each stimulus arrives in the environment of its moment.\<close>

fun run :: "(env \<times> stimulus) list \<Rightarrow> system \<Rightarrow> (system \<times> observation list) option" where
  "run [] sys = Some (sys, [])"
| "run ((e, st) # rest) sys =
     (case deliver e st sys of
        None \<Rightarrow> None
      | Some (sys1, obs1) \<Rightarrow>
          (case run rest sys1 of
             None \<Rightarrow> None
           | Some (sys2, obs2) \<Rightarrow> Some (sys2, obs1 @ obs2)))"

text \<open>
  One execution of \<open>setup()\<close>: the call, made in \<open>e0\<close> at a moment when no call of the
  object is outstanding, followed by a run.
\<close>

definition setup_execution :: "env \<Rightarrow> StorageAccess \<Rightarrow> (env \<times> stimulus) list
    \<Rightarrow> (system \<times> observation list) option" where
  "setup_execution e0 s0 stims =
     (let (r, s1, evs) = StorageAccess_setup e0 s0
      in case run stims (s1, callbacks_of evs) of
           None \<Rightarrow> None
         | Some (sys, obs) \<Rightarrow> Some (sys, map Did evs @ obs))"

fun is_mount_call :: "observation \<Rightarrow> bool" where
  "is_mount_call (Did (CallWithCallback (Mount path options))) = True"
| "is_mount_call ob = False"

fun is_unlock_completed :: "observation \<Rightarrow> bool" where
  "is_unlock_completed (Completed (Unlock path passphrase)) = True"
| "is_unlock_completed ob = False"

fun is_unlock :: "dbus_call \<Rightarrow> bool" where
  "is_unlock (Unlock path passphrase) = True"
| "is_unlock c = False"

text \<open>No \<open>Mount\<close> call is observed before the first successful completion of an \<open>Unlock\<close>.\<close>

fun no_mount_before_unlock :: "observation list \<Rightarrow> bool" where
  "no_mount_before_unlock [] = True"
| "no_mount_before_unlock (ob # obs) =
     (if is_unlock_completed ob then True
      else \<not> is_mount_call ob \<and> no_mount_before_unlock obs)"

subsection \<open>Example devices\<close>

definition no_props :: device_props where
  "no_props = \<lparr>isMounted = False, isEncryptedContainer = False, isEncryptedCleartext = False,
     isOpticalDisc = False, drivePath = [], IdType = [], CryptoBackingDevice = [],
     MediaRemovable = False, MediaAvailable = False, CanPowerOff = False\<rparr>"

text \<open>
  An environment for the device \<open>/org/x/block_1\<close>, given the handles of all object paths
  and the introspection reply.
\<close>

definition example_env :: "(string \<Rightarrow> device_props) \<Rightarrow> string option list option \<Rightarrow> env" where
  "example_env d i = \<lparr>udi = ''/org/x/block_1'', device = d, introspect = i,
     UD2_DBUS_PATH_BLOCKDEVICES = ''/org/x'', callWithCallbackResult = True,
     baseService = '':1.7'', focusWindow = None, applicationName = ''app'',
     dialogReplyValid = True, errorToSolidError = (\<lambda>name. OperationFailed),
     errorToString = (\<lambda>name. name)\<rparr>"

text \<open>\<open>/org/x/block_1\<close> is an encrypted container that is locked: no cleartext sibling.\<close>

definition env_locked :: env where
  "env_locked = example_env
     (\<lambda>p. if p = ''/org/x/block_1'' then no_props\<lparr>isEncryptedContainer := True\<rparr> else no_props)
     (Some [Some ''block_1''])"

text \<open>The container is unlocked: \<open>/org/x/dm_0\<close> is its cleartext sibling, not mounted.\<close>

definition env_unlocked :: env where
  "env_unlocked = example_env
     (\<lambda>p. if p = ''/org/x/block_1'' then no_props\<lparr>isEncryptedContainer := True\<rparr>
          else if p = ''/org/x/dm_0'' then no_props\<lparr>CryptoBackingDevice := ''/org/x/block_1''\<rparr>
          else no_props)
     (Some [Some ''block_1'', Some ''dm_0''])"

text \<open>The container is unlocked and its cleartext sibling is mounted.\<close>

definition env_mounted :: env where
  "env_mounted = example_env
     (\<lambda>p. if p = ''/org/x/block_1'' then no_props\<lparr>isEncryptedContainer := True\<rparr>
          else if p = ''/org/x/dm_0''
          then no_props\<lparr>CryptoBackingDevice := ''/org/x/block_1'', isMounted := True\<rparr>
          else no_props)
     (Some [Some ''block_1'', Some ''dm_0''])"

text \<open>
  \<open>/org/x/block_1\<close> is a plain volume, not mounted any more, on the drive \<open>/org/x/drive_1\<close>
  whose properties are given.
\<close>

definition env_on_drive :: "device_props \<Rightarrow> env" where
  "env_on_drive drive = example_env
     (\<lambda>p. if p = ''/org/x/block_1'' then no_props\<lparr>drivePath := ''/org/x/drive_1''\<rparr>
          else if p = ''/org/x/drive_1'' then drive
          else no_props)
     (Some [Some ''block_1''])"

text \<open>The state after the constructor, for a device that is not accessible.\<close>

definition idle :: StorageAccess where
  "idle = \<lparr>m_isAccessible = False, m_setupInProgress = False, m_teardownInProgress = False,
     m_passphraseRequested = False, m_lastReturnObject = [], number = 1\<rparr>"

text \<open>
  A slot is quiet when every call it makes with a callback is an \<open>Unlock\<close> and it makes no
  \<open>Mount\<close> call.
\<close>

definition quiet :: "StorageAccess \<times> event list \<Rightarrow> bool" where
  "quiet r = (list_all is_unlock (callbacks_of (snd r))
     \<and> list_all (\<lambda>ob. \<not> is_mount_call ob) (map Did (snd r)))"

subsection \<open>The mount-table cache: data\<close>

text \<open>
  One record of \<open>getmntent\<close>: \<open>mnt_fsname\<close> (source), \<open>mnt_dir\<close> (target), \<open>mnt_type\<close>,
  \<open>mnt_opts\<close>. \<open>QFile::decodeName\<close> is taken as the identity on these strings.
\<close>

record mntent =
  mnt_fsname :: string
  mnt_dir :: string
  mnt_type :: string
  mnt_opts :: string

text \<open>
  The two files as the parsers read them, in the configuration with \<open>setmntent\<close> and
  without \<open>getmntinfo\<close>: the list of records that the \<open>getmntent\<close> loop returns, or \<open>None\<close>
  when \<open>setmntent\<close> returns \<open>nullptr\<close>.
\<close>

record mount_files =
  fstab :: "mntent list option"
  mtab :: "mntent list option"

text \<open>
  The members of \<open>FstabHandling\<close>. The three \<open>QMultiHash\<close> members are association lists
  with the most recent insertion first, which is the order of \<open>values(key)\<close>;
  \<open>m_fstabFstypeCache\<close>, read with \<open>value(key)\<close>, is a map in which an insertion replaces
  the value of its key. Qt does not fix the order of \<open>keys()\<close> between different keys;
  here they come most recent first.
\<close>

record FstabHandling =
  m_fstabCacheValid :: bool
  m_mtabCacheValid :: bool
  m_mtabCache :: "(string \<times> string) list"
  m_fstabCache :: "(string \<times> string) list"
  m_fstabOptionsCache :: "(string \<times> string) list"
  m_fstabFstypeCache :: "string \<rightharpoonup> string"

definition FstabHandling_init :: FstabHandling where
  "FstabHandling_init = \<lparr>m_fstabCacheValid = False, m_mtabCacheValid = False,
     m_mtabCache = [], m_fstabCache = [], m_fstabOptionsCache = [],
     m_fstabFstypeCache = Map.empty\<rparr>"

definition multi_values :: "(string \<times> string) list \<Rightarrow> string \<Rightarrow> string list" where
  "multi_values c key = map snd (filter (\<lambda>kv. fst kv = key) c)"

definition multi_keys :: "(string \<times> string) list \<Rightarrow> string list" where
  "multi_keys c = map fst c"

text \<open>\<open>QStringList::removeDuplicates\<close>: the first occurrence of each string stays.\<close>

fun removeDuplicates_from :: "string list \<Rightarrow> string list \<Rightarrow> string list" where
  "removeDuplicates_from seen [] = []"
| "removeDuplicates_from seen (x # xs) =
     (if x \<in> set seen then removeDuplicates_from seen xs
      else x # removeDuplicates_from (x # seen) xs)"

definition removeDuplicates :: "string list \<Rightarrow> string list" where
  "removeDuplicates xs = removeDuplicates_from [] xs"

definition startsWith :: "string \<Rightarrow> string \<Rightarrow> bool" where
  "startsWith s prefix = (take (length prefix) s = prefix)"

text \<open>\<open>QString::split(sep)\<close>, empty parts kept: the empty string splits into one empty part.\<close>

fun QString_split :: "char \<Rightarrow> string \<Rightarrow> string list" where
  "QString_split sep [] = [[]]"
| "QString_split sep (c # cs) =
     (if c = sep then [] # QString_split sep cs
      else (case QString_split sep cs of
              [] \<Rightarrow> [[c]]
            | part # parts \<Rightarrow> (c # part) # parts))"

subsection \<open>The mount-table cache: parsing\<close>

definition k_isFstabNetworkFileSystem :: "string \<Rightarrow> string \<Rightarrow> bool" where
  "k_isFstabNetworkFileSystem fstype devName =
     (if fstype = ''nfs'' \<or> fstype = ''nfs4'' \<or> fstype = ''smbfs'' \<or> fstype = ''cifs''
         \<or> startsWith devName ''//''
      then True else False)"

definition k_isFstabSupportedLocalFileSystem :: "string \<Rightarrow> bool" where
  "k_isFstabSupportedLocalFileSystem fstype =
     (if fstype = ''fuse.encfs'' \<or> fstype = ''fuse.cryfs'' \<or> fstype = ''overlay''
      then True else False)"

definition k_deviceNameForMountpoint :: "string \<Rightarrow> string \<Rightarrow> string \<Rightarrow> string" where
  "k_deviceNameForMountpoint source fstype mountpoint =
     (if startsWith fstype ''fuse.'' \<or> fstype = ''overlay'' then fstype @ mountpoint
      else source)"

text \<open>The body of the \<open>getmntent\<close> loop of \<open>_k_updateFstabMountPointsCache\<close>.\<close>

definition fstab_entry :: "mntent \<Rightarrow> FstabHandling \<Rightarrow> FstabHandling" where
  "fstab_entry fe c =
     (let fsname = mnt_fsname fe; fstype = mnt_type fe
      in if k_isFstabNetworkFileSystem fstype fsname \<or> k_isFstabSupportedLocalFileSystem fstype
         then
           (let mountpoint = mnt_dir fe;
                device = k_deviceNameForMountpoint fsname fstype mountpoint;
                options = QString_split CHR '','' (mnt_opts fe)
            in c\<lparr>m_fstabCache := (device, mountpoint) # m_fstabCache c,
                 m_fstabFstypeCache := (m_fstabFstypeCache c)(device \<mapsto> fstype),
                 m_fstabOptionsCache :=
                   fold (\<lambda>opt oc. (device, opt) # oc) options (m_fstabOptionsCache c)\<rparr>)
         else c)"

definition k_updateFstabMountPointsCache :: "mount_files \<Rightarrow> FstabHandling \<Rightarrow> FstabHandling" where
  "k_updateFstabMountPointsCache files c =
     (if m_fstabCacheValid c then c
      else
        (let c1 = c\<lparr>m_fstabCache := [], m_fstabOptionsCache := []\<rparr>
         in case fstab files of
              None \<Rightarrow> c1
            | Some entries \<Rightarrow> (fold fstab_entry entries c1)\<lparr>m_fstabCacheValid := True\<rparr>))"

text \<open>
  The body of the loop of \<open>_k_updateMtabMountPointsCache\<close>: the network test gets
  \<open>QString()\<close> as the device name.
\<close>

definition mtab_entry :: "mntent \<Rightarrow> FstabHandling \<Rightarrow> FstabHandling" where
  "mtab_entry fe c =
     (let type = mnt_type fe
      in if k_isFstabNetworkFileSystem type [] \<or> k_isFstabSupportedLocalFileSystem type
         then
           (let fsname = mnt_fsname fe;
                mountpoint = mnt_dir fe;
                device = k_deviceNameForMountpoint fsname type mountpoint
            in c\<lparr>m_mtabCache := (device, mountpoint) # m_mtabCache c,
                 m_fstabFstypeCache := (m_fstabFstypeCache c)(device \<mapsto> type)\<rparr>)
         else c)"

definition k_updateMtabMountPointsCache :: "mount_files \<Rightarrow> FstabHandling \<Rightarrow> FstabHandling" where
  "k_updateMtabMountPointsCache files c =
     (if m_mtabCacheValid c then c
      else
        (let c1 = c\<lparr>m_mtabCache := []\<rparr>
         in case mtab files of
              None \<Rightarrow> c1
            | Some entries \<Rightarrow> (fold mtab_entry entries c1)\<lparr>m_mtabCacheValid := True\<rparr>))"

subsection \<open>The mount-table cache: queries and invalidation\<close>

definition deviceList :: "mount_files \<Rightarrow> FstabHandling \<Rightarrow> string list \<times> FstabHandling" where
  "deviceList files c =
     (let c1 = k_updateFstabMountPointsCache files c;
          c2 = k_updateMtabMountPointsCache files c1;
          devices = multi_keys (m_fstabCache c2) @ multi_keys (m_mtabCache c2)
      in (removeDuplicates devices, c2))"

definition mountPoints :: "mount_files \<Rightarrow> string \<Rightarrow> FstabHandling \<Rightarrow> string list \<times> FstabHandling" where
  "mountPoints files dev c =
     (let c1 = k_updateFstabMountPointsCache files c;
          c2 = k_updateMtabMountPointsCache files c1;
          mountpoints = multi_values (m_fstabCache c2) dev @ multi_values (m_mtabCache c2) dev
      in (removeDuplicates mountpoints, c2))"

definition options :: "mount_files \<Rightarrow> string \<Rightarrow> FstabHandling \<Rightarrow> string list \<times> FstabHandling" where
  "options files dev c =
     (let c1 = k_updateFstabMountPointsCache files c
      in (multi_values (m_fstabOptionsCache c1) dev, c1))"

definition fstype :: "mount_files \<Rightarrow> string \<Rightarrow> FstabHandling \<Rightarrow> string \<times> FstabHandling" where
  "fstype files dev c =
     (let c1 = k_updateFstabMountPointsCache files c
      in (case m_fstabFstypeCache c1 dev of None \<Rightarrow> [] | Some t \<Rightarrow> t, c1))"

definition currentMountPoints :: "mount_files \<Rightarrow> string \<Rightarrow> FstabHandling \<Rightarrow> string list \<times> FstabHandling" where
  "currentMountPoints files dev c =
     (let c1 = k_updateMtabMountPointsCache files c
      in (multi_values (m_mtabCache c1) dev, c1))"

definition flushMtabCache :: "FstabHandling \<Rightarrow> FstabHandling" where
  "flushMtabCache c = c\<lparr>m_mtabCacheValid := False\<rparr>"

definition flushFstabCache :: "FstabHandling \<Rightarrow> FstabHandling" where
  "flushFstabCache c = c\<lparr>m_fstabCacheValid := False\<rparr>"

text \<open>The five queries as one function, and a sequence of queries, each at its own moment.\<close>

datatype query =
  MountPoints string
  | Options string
  | Fstype string
  | DeviceList
  | CurrentMountPoints string

datatype answer = Strings "string list" | String string

fun ask :: "mount_files \<Rightarrow> query \<Rightarrow> FstabHandling \<Rightarrow> answer \<times> FstabHandling" where
  "ask files (MountPoints dev) c = (let (r, c1) = mountPoints files dev c in (Strings r, c1))"
| "ask files (Options dev) c = (let (r, c1) = options files dev c in (Strings r, c1))"
| "ask files (Fstype dev) c = (let (r, c1) = fstype files dev c in (String r, c1))"
| "ask files DeviceList c = (let (r, c1) = deviceList files c in (Strings r, c1))"
| "ask files (CurrentMountPoints dev) c =
     (let (r, c1) = currentMountPoints files dev c in (Strings r, c1))"

fun asks :: "(mount_files \<times> query) list \<Rightarrow> FstabHandling \<Rightarrow> answer list \<times> FstabHandling" where
  "asks [] c = ([], c)"
| "asks ((files, q) # rest) c =
     (let (a, c1) = ask files q c;
          (as, c2) = asks rest c1
      in (a # as, c2))"

subsection \<open>The retention rule in words\<close>

text \<open>
  The network filesystem types and the allow-listed local filesystem types, and the device
  name under which an entry is cached.
\<close>

definition network_types :: "string list" where
  "network_types = [''nfs'', ''nfs4'', ''smbfs'', ''cifs'']"

definition supported_local_types :: "string list" where
  "supported_local_types = [''fuse.encfs'', ''fuse.cryfs'', ''overlay'']"

text \<open>
  Retained by type alone, and retained by type or by a source name that starts with
  \<open>//\<close>.
\<close>

definition retained_by_type :: "mntent \<Rightarrow> bool" where
  "retained_by_type fe =
     (mnt_type fe \<in> set network_types \<or> mnt_type fe \<in> set supported_local_types)"

definition retained_by_type_or_source :: "mntent \<Rightarrow> bool" where
  "retained_by_type_or_source fe =
     (mnt_type fe \<in> set network_types \<or> take 2 (mnt_fsname fe) = ''//''
      \<or> mnt_type fe \<in> set supported_local_types)"

definition device_of :: "mntent \<Rightarrow> string" where
  "device_of fe = k_deviceNameForMountpoint (mnt_fsname fe) (mnt_type fe) (mnt_dir fe)"

text \<open>
  The retained entries of a file, the last one of the file first (the order in which the
  caches list them), and the entries cached under one device name.
\<close>

definition kept_fstab :: "mntent list \<Rightarrow> mntent list" where
  "kept_fstab entries = rev (filter retained_by_type_or_source entries)"

definition kept_mtab :: "mntent list \<Rightarrow> mntent list" where
  "kept_mtab entries = rev (filter retained_by_type entries)"

definition of_device :: "string \<Rightarrow> mntent list \<Rightarrow> mntent list" where
  "of_device dev entries = filter (\<lambda>fe. device_of fe = dev) entries"

definition options_of :: "mntent \<Rightarrow> string list" where
  "options_of fe = rev (QString_split CHR '','' (mnt_opts fe))"

subsection \<open>Example mount tables\<close>

definition smb3_share :: mntent where
  "smb3_share = \<lparr>mnt_fsname = ''//server/share'', mnt_dir = ''/mnt/share'',
     mnt_type = ''smb3'', mnt_opts = ''rw''\<rparr>"

definition nfs_share :: mntent where
  "nfs_share = \<lparr>mnt_fsname = ''server:/export'', mnt_dir = ''/mnt/nfs'',
     mnt_type = ''nfs'', mnt_opts = ''rw,noauto''\<rparr>"

definition encfs_mount :: mntent where
  "encfs_mount = \<lparr>mnt_fsname = ''encfs'', mnt_dir = ''/home/u/Private'',
     mnt_type = ''fuse.encfs'', mnt_opts = ''rw''\<rparr>"

definition root_ext4 :: mntent where
  "root_ext4 = \<lparr>mnt_fsname = ''/dev/sda1'', mnt_dir = ''/'',
     mnt_type = ''ext4'', mnt_opts = ''defaults''\<rparr>"

text \<open>
  The files at two moments: first an encfs mount is in the live table; later it is gone
  and an NFS share has been added to the static table.
\<close>

definition files_before :: mount_files where
  "files_before = \<lparr>fstab = Some [root_ext4], mtab = Some [root_ext4, encfs_mount]\<rparr>"

definition files_after :: mount_files where
  "files_after = \<lparr>fstab = Some [root_ext4, nfs_share], mtab = Some [root_ext4]\<rparr>"

text \<open>The state of the caches after both files have been parsed from \<open>files_before\<close>.\<close>

definition cache_before :: FstabHandling where
  "cache_before = \<lparr>m_fstabCacheValid = True, m_mtabCacheValid = True,
     m_mtabCache = [(''fuse.encfs/home/u/Private'', ''/home/u/Private'')],
     m_fstabCache = [], m_fstabOptionsCache = [],
     m_fstabFstypeCache = [''fuse.encfs/home/u/Private'' \<mapsto> ''fuse.encfs'']\<rparr>"

text \<open>Both tables with a share of type \<open>smb3\<close> whose source name starts with \<open>//\<close>.\<close>

definition files_smb3 :: mount_files where
  "files_smb3 = \<lparr>fstab = Some [root_ext4, nfs_share, smb3_share],
     mtab = Some [root_ext4, encfs_mount, smb3_share]\<rparr>"

section \<open>Properties of StorageAccess\<close>

subsection \<open>The example devices\<close>

lemmas example_defs = env_locked_def env_unlocked_def env_mounted_def env_on_drive_def
  example_env_def no_props_def idle_def

lemma clearTextPath_env_locked: "clearTextPath env_locked = []"
  by (simp add: clearTextPath_def example_defs)

lemma clearTextPath_env_unlocked: "clearTextPath env_unlocked = ''/org/x/dm_0''"
  by (simp add: clearTextPath_def example_defs)

lemma clearTextPath_env_mounted: "clearTextPath env_mounted = ''/org/x/dm_0''"
  by (simp add: clearTextPath_def example_defs)

lemma clearTextPath_env_on_drive: "clearTextPath (env_on_drive drive) = []"
  by (simp add: clearTextPath_def example_defs)

lemma isLuksDevice_examples:
  "isLuksDevice env_locked" "isLuksDevice env_unlocked" "isLuksDevice env_mounted"
  "\<not> isLuksDevice (env_on_drive drive)"
  by (simp_all add: isLuksDevice_def example_defs)

lemma isAccessible_examples:
  "\<not> isAccessible env_locked" "\<not> isAccessible env_unlocked" "isAccessible env_mounted"
  "\<not> isAccessible (env_on_drive drive)"
  by (simp_all add: isAccessible_def isLuksDevice_examples clearTextPath_env_locked
      clearTextPath_env_unlocked clearTextPath_env_mounted)
    (simp_all add: example_defs)

subsection \<open>Mutual exclusion of setup and teardown\<close>

text \<open>
  C1. In every state in which a setup or a teardown is in progress, \<open>setup()\<close> and
  \<open>teardown()\<close> return false at once: the state (flags, accessibility cache) is the one
  before the call and the list of events is empty, so no request is made to the daemon and
  nothing is broadcast.
\<close>

theorem setup_teardown_rejected_while_in_progress:
  "m_setupInProgress s \<or> m_teardownInProgress s \<Longrightarrow>
     StorageAccess_setup e s = (False, s, []) \<and> StorageAccess_teardown e s = (False, s, [])"
  by (auto simp: StorageAccess_setup_def StorageAccess_teardown_def)

theorem setup_teardown_rejected_while_in_progress_witness:
  "(m_setupInProgress (idle\<lparr>m_setupInProgress := True\<rparr>)
      \<or> m_teardownInProgress (idle\<lparr>m_setupInProgress := True\<rparr>))
   \<and> StorageAccess_setup env_unlocked (idle\<lparr>m_setupInProgress := True\<rparr>)
       = (False, idle\<lparr>m_setupInProgress := True\<rparr>, [])
   \<and> StorageAccess_teardown env_unlocked (idle\<lparr>m_setupInProgress := True\<rparr>)
       = (False, idle\<lparr>m_setupInProgress := True\<rparr>, [])
   \<and> StorageAccess_setup env_mounted (idle\<lparr>m_teardownInProgress := True\<rparr>)
       = (False, idle\<lparr>m_teardownInProgress := True\<rparr>, [])
   \<and> StorageAccess_teardown env_mounted (idle\<lparr>m_teardownInProgress := True\<rparr>)
       = (False, idle\<lparr>m_teardownInProgress := True\<rparr>, [])"
  using setup_teardown_rejected_while_in_progress
    [of "idle\<lparr>m_setupInProgress := True\<rparr>" env_unlocked]
    setup_teardown_rejected_while_in_progress
    [of "idle\<lparr>m_teardownInProgress := True\<rparr>" env_mounted]
  by (simp add: idle_def)

subsection \<open>Accessibility notifications\<close>

lemma checkAccessibility_times_events:
  "snd (checkAccessibility_times n e s) =
     (if n = 0 \<or> isAccessible e = m_isAccessible s then []
      else [AccessibilityChanged (isAccessible e) (udi e)])"
proof (induction n arbitrary: s)
  case 0
  show ?case by simp
next
  case (Suc n)
  show ?case
    by (simp add: Suc.IH checkAccessibility_def updateCache_def Let_def split_beta)
qed

text \<open>
  C2. \<open>checkAccessibility()\<close> stores the newly computed accessibility and emits
  \<open>accessibilityChanged\<close>, with the new value and the device's identifier, exactly when
  that value differs from the cached one. When the value is the same, the state is
  unchanged and nothing is emitted. Called any number of times in the same environment,
  it emits at most one notification in total: one at the first call if the value has
  changed, none afterwards.
\<close>

theorem checkAccessibility_notifies_iff_changed:
  "checkAccessibility e s =
     (s\<lparr>m_isAccessible := isAccessible e\<rparr>,
      if isAccessible e \<noteq> m_isAccessible s
      then [AccessibilityChanged (isAccessible e) (udi e)] else [])
   \<and> (isAccessible e = m_isAccessible s \<longrightarrow> checkAccessibility e s = (s, []))
   \<and> snd (checkAccessibility_times n e s) =
       (if n = 0 \<or> isAccessible e = m_isAccessible s then []
        else [AccessibilityChanged (isAccessible e) (udi e)])
   \<and> length (snd (checkAccessibility_times n e s)) \<le> 1"
  by (simp add: checkAccessibility_times_events)
    (simp add: checkAccessibility_def updateCache_def)

theorem checkAccessibility_notifies_iff_changed_witness:
  "checkAccessibility env_mounted idle =
     (idle\<lparr>m_isAccessible := True\<rparr>, [AccessibilityChanged True ''/org/x/block_1''])
   \<and> isAccessible env_unlocked = m_isAccessible idle
   \<and> checkAccessibility env_unlocked idle = (idle, [])
   \<and> snd (checkAccessibility_times 3 env_mounted idle)
       = [AccessibilityChanged True ''/org/x/block_1'']"
  using checkAccessibility_notifies_iff_changed [of env_mounted idle 3]
    checkAccessibility_notifies_iff_changed [of env_unlocked idle 0]
  by (simp add: isAccessible_examples) (simp add: example_defs)

subsection \<open>The passphrase reply\<close>

text \<open>
  C3. In every state in which a passphrase was requested, \<open>passphraseReply\<close> with the
  empty string clears \<open>m_setupInProgress\<close> (and \<open>m_passphraseRequested\<close>), broadcasts
  exactly one setup-done with the error \<open>UserCanceled\<close>, makes no call to the daemon
  (neither \<open>Unlock\<close> nor any other), and leaves the accessibility cache as it was.
\<close>

theorem passphraseReply_empty_cancels:
  "m_passphraseRequested s \<Longrightarrow>
     passphraseReply e [] s =
       (s\<lparr>m_passphraseRequested := False, m_setupInProgress := False\<rparr>,
        [UnregisterObject (m_lastReturnObject s), BroadcastActionDone ''setup'' UserCanceled []])
     \<and> \<not> m_setupInProgress (fst (passphraseReply e [] s))
     \<and> filter is_action_done (snd (passphraseReply e [] s))
         = [BroadcastActionDone ''setup'' UserCanceled []]
     \<and> filter is_daemon_call (snd (passphraseReply e [] s)) = []
     \<and> m_isAccessible (fst (passphraseReply e [] s)) = m_isAccessible s"
  by (simp add: passphraseReply_def)

theorem passphraseReply_empty_cancels_witness:
  "m_passphraseRequested
     (idle\<lparr>m_setupInProgress := True, m_passphraseRequested := True, m_lastReturnObject := ''/r''\<rparr>)
   \<and> passphraseReply env_locked []
       (idle\<lparr>m_setupInProgress := True, m_passphraseRequested := True, m_lastReturnObject := ''/r''\<rparr>)
     = (idle\<lparr>m_lastReturnObject := ''/r''\<rparr>,
        [UnregisterObject ''/r'', BroadcastActionDone ''setup'' UserCanceled []])"
  using passphraseReply_empty_cancels [of
      "idle\<lparr>m_setupInProgress := True, m_passphraseRequested := True, m_lastReturnObject := ''/r''\<rparr>"
      env_locked]
  by (simp add: idle_def)

text \<open>
  C4. When no passphrase request is outstanding, \<open>passphraseReply\<close> with any passphrase,
  empty or not, does nothing: the state is the one before the call, field by field, and the
  list of events is empty.
\<close>

theorem passphraseReply_without_request_ignored:
  "\<not> m_passphraseRequested s \<Longrightarrow> passphraseReply e passphrase s = (s, [])"
  by (simp add: passphraseReply_def)

theorem passphraseReply_without_request_ignored_witness:
  "\<not> m_passphraseRequested (idle\<lparr>m_setupInProgress := True\<rparr>)
   \<and> passphraseReply env_locked ''secret'' (idle\<lparr>m_setupInProgress := True\<rparr>)
       = (idle\<lparr>m_setupInProgress := True\<rparr>, [])
   \<and> passphraseReply env_locked [] (idle\<lparr>m_setupInProgress := True\<rparr>)
       = (idle\<lparr>m_setupInProgress := True\<rparr>, [])"
  using passphraseReply_without_request_ignored
      [of "idle\<lparr>m_setupInProgress := True\<rparr>" env_locked "''secret''"]
    passphraseReply_without_request_ignored
      [of "idle\<lparr>m_setupInProgress := True\<rparr>" env_locked "[]"]
  by (simp add: idle_def)

subsection \<open>Errors reported by the daemon\<close>

text \<open>
  C7. When the daemon reports an error while a setup or a teardown is in progress,
  \<open>slotDBusError\<close> clears the flag of that action (of the setup, when
  \<open>m_setupInProgress\<close> is set; of the teardown otherwise), broadcasts exactly one
  done-notification for it, carrying the error kind mapped from the error name and the
  mapped name followed by the message, rechecks accessibility, and makes no call to the
  daemon.
\<close>

theorem slotDBusError_ends_action:
  "m_setupInProgress s \<or> m_teardownInProgress s \<Longrightarrow>
     (let action = (if m_setupInProgress s then ''setup'' else ''teardown'');
          s1 = (if m_setupInProgress s then s\<lparr>m_setupInProgress := False\<rparr>
                else s\<lparr>m_teardownInProgress := False\<rparr>);
          done = BroadcastActionDone action (errorToSolidError e name)
                   (errorToString e name @ '': '' @ message)
      in slotDBusError e name message s = (fst (checkAccessibility e s1),
           done # snd (checkAccessibility e s1))
         \<and> m_isAccessible (fst (slotDBusError e name message s)) = isAccessible e
         \<and> filter is_action_done (snd (slotDBusError e name message s)) = [done]
         \<and> filter is_daemon_call (snd (slotDBusError e name message s)) = [])"
  by (auto simp: slotDBusError_def checkAccessibility_def updateCache_def Let_def)

theorem slotDBusError_ends_action_witness:
  "(m_setupInProgress (idle\<lparr>m_teardownInProgress := True, m_isAccessible := True\<rparr>)
      \<or> m_teardownInProgress (idle\<lparr>m_teardownInProgress := True, m_isAccessible := True\<rparr>))
   \<and> slotDBusError env_mounted ''org.freedesktop.UDisks2.Error.DeviceBusy'' ''target is busy''
       (idle\<lparr>m_teardownInProgress := True, m_isAccessible := True\<rparr>)
     = (idle\<lparr>m_isAccessible := True\<rparr>,
        [BroadcastActionDone ''teardown'' OperationFailed
           ''org.freedesktop.UDisks2.Error.DeviceBusy: target is busy''])"
  using slotDBusError_ends_action [of "idle\<lparr>m_teardownInProgress := True, m_isAccessible := True\<rparr>"
      env_mounted "''org.freedesktop.UDisks2.Error.DeviceBusy''" "''target is busy''"]
  by (simp add: checkAccessibility_def updateCache_def isAccessible_examples Let_def)
    (simp add: example_defs)

subsection \<open>Setup of a locked encrypted container\<close>

text \<open>Every slot but \<open>slotDBusReply\<close> is quiet.\<close>

lemma callbacks_of_append: "callbacks_of (xs @ ys) = callbacks_of xs @ callbacks_of ys"
  by (induction xs rule: callbacks_of.induct) simp_all

lemma no_mount_before_unlock_append:
  "list_all (\<lambda>ob. \<not> is_mount_call ob) xs \<Longrightarrow> no_mount_before_unlock ys
     \<Longrightarrow> no_mount_before_unlock (xs @ ys)"
  by (induction xs) simp_all

lemma checkAccessibility_quiet: "quiet (checkAccessibility e s)"
  by (simp add: quiet_def checkAccessibility_def Let_def)

lemma passphraseReply_quiet: "quiet (passphraseReply e passphrase s)"
  by (simp add: quiet_def passphraseReply_def callCryptoSetup_def Let_def)

lemma slotDBusError_quiet: "quiet (slotDBusError e name message s)"
  using checkAccessibility_quiet [of e "s\<lparr>m_setupInProgress := False\<rparr>"]
    checkAccessibility_quiet [of e "s\<lparr>m_teardownInProgress := False\<rparr>"]
  by (simp add: quiet_def slotDBusError_def Let_def split_beta)

lemma slotSetupRequested_quiet: "quiet (slotSetupRequested e s)"
  by (simp add: quiet_def slotSetupRequested_def)

lemma slotTeardownRequested_quiet: "quiet (slotTeardownRequested e s)"
  by (simp add: quiet_def slotTeardownRequested_def)

lemma slotSetupDone_quiet: "quiet (slotSetupDone e error errorString s)"
  using checkAccessibility_quiet [of e "s\<lparr>m_setupInProgress := False\<rparr>"]
  by (simp add: quiet_def slotSetupDone_def Let_def split_beta callbacks_of_append)

lemma slotTeardownDone_quiet: "quiet (slotTeardownDone e error errorString s)"
  using checkAccessibility_quiet [of e "s\<lparr>m_teardownInProgress := False\<rparr>"]
  by (simp add: quiet_def slotTeardownDone_def Let_def split_beta callbacks_of_append)

lemma list_all_remove_nth: "list_all P xs \<Longrightarrow> list_all P (remove_nth k xs)"
  by (auto simp: remove_nth_def list_all_iff dest: in_set_takeD in_set_dropD)

lemma after_slot_quiet:
  assumes "after_slot pend pre r = Some ((s', pend'), obs1)"
    and "quiet r" and "list_all is_unlock pend"
    and "list_all (\<lambda>ob. \<not> is_mount_call ob) pre"
  shows "list_all is_unlock pend' \<and> list_all (\<lambda>ob. \<not> is_mount_call ob) obs1"
  using assms by (auto simp: after_slot_def quiet_def)

lemma deliver_step:
  assumes "deliver e st (s, pend) = Some ((s', pend'), obs1)"
    and "list_all is_unlock pend"
  shows "(\<exists>ob obs. obs1 = ob # obs \<and> is_unlock_completed ob)
     \<or> (list_all is_unlock pend' \<and> list_all (\<lambda>ob. \<not> is_mount_call ob) obs1)"
proof (cases st)
  case (PassphraseReply passphrase)
  with assms after_slot_quiet [OF _ passphraseReply_quiet] show ?thesis by simp
next
  case (ReplyOk k)
  with assms have k: "k < length pend"
    and obs1: "obs1 = Completed (pend ! k) # map Did (snd (slotDBusReply e s))"
    by (auto simp: after_slot_def split: if_splits)
  from k assms(2) have "is_unlock (pend ! k)" by (simp add: list_all_length)
  then have "is_unlock_completed (Completed (pend ! k))"
    by (cases "pend ! k") simp_all
  with obs1 show ?thesis by blast
next
  case (ReplyError k name message)
  with assms have k: "k < length pend"
    and a: "after_slot (remove_nth k pend) [Failed (pend ! k)] (slotDBusError e name message s)
      = Some ((s', pend'), obs1)"
    by (auto split: if_splits)
  from after_slot_quiet [OF a slotDBusError_quiet list_all_remove_nth [OF assms(2)]]
  show ?thesis by simp
next
  case DeviceChanged
  with assms after_slot_quiet [OF _ checkAccessibility_quiet] show ?thesis by simp
next
  case SignalSetupRequested
  with assms after_slot_quiet [OF _ slotSetupRequested_quiet] show ?thesis by simp
next
  case (SignalSetupDone error errorString)
  with assms after_slot_quiet [OF _ slotSetupDone_quiet] show ?thesis by simp
next
  case SignalTeardownRequested
  with assms after_slot_quiet [OF _ slotTeardownRequested_quiet] show ?thesis by simp
next
  case (SignalTeardownDone error errorString)
  with assms after_slot_quiet [OF _ slotTeardownDone_quiet] show ?thesis by simp
qed

lemma run_no_mount_before_unlock:
  "run stims (s, pend) = Some (sys', obs) \<Longrightarrow> list_all is_unlock pend
     \<Longrightarrow> no_mount_before_unlock obs"
proof (induction stims arbitrary: s pend sys' obs)
  case Nil
  then show ?case by simp
next
  case (Cons a stims)
  obtain e st where a: "a = (e, st)" by (cases a)
  from Cons.prems(1) a obtain s1 pend1 obs1 sys2 obs2 where
    d: "deliver e st (s, pend) = Some ((s1, pend1), obs1)"
    and r: "run stims (s1, pend1) = Some (sys2, obs2)"
    and obs: "obs = obs1 @ obs2"
    by (auto split: option.splits)
  from deliver_step [OF d Cons.prems(2)] show ?case
  proof
    assume "\<exists>ob obs. obs1 = ob # obs \<and> is_unlock_completed ob"
    with obs show ?thesis by auto
  next
    assume q: "list_all is_unlock pend1 \<and> list_all (\<lambda>ob. \<not> is_mount_call ob) obs1"
    with Cons.IH [OF r] have "no_mount_before_unlock obs2" by simp
    with q obs show ?thesis by (simp add: no_mount_before_unlock_append)
  qed
qed

lemma setup_locked_events:
  assumes "isEncryptedContainer (m_device e0)" and "clearTextPath e0 = []"
  shows "quiet (fst (snd (StorageAccess_setup e0 s0)), snd (snd (StorageAccess_setup e0 s0)))
    \<and> callbacks_of (snd (snd (StorageAccess_setup e0 s0))) = []"
  using assms
  by (simp add: quiet_def StorageAccess_setup_def requestPassphrase_def Let_def split_beta)

lemma setup_execution_no_mount_before_unlock:
  assumes "isEncryptedContainer (m_device e0)" and "clearTextPath e0 = []"
    and "setup_execution e0 s0 stims = Some (sys', obs)"
  shows "no_mount_before_unlock obs"
proof -
  let ?r = "StorageAccess_setup e0 s0"
  from assms(3) obtain obs2 where
    r: "run stims (fst (snd ?r), callbacks_of (snd (snd ?r))) = Some (sys', obs2)"
    and obs: "obs = map Did (snd (snd ?r)) @ obs2"
    by (auto simp: setup_execution_def split_beta split: option.splits)
  from setup_locked_events [OF assms(1,2), of s0]
  have q: "list_all (\<lambda>ob. \<not> is_mount_call ob) (map Did (snd (snd ?r)))"
    and c: "callbacks_of (snd (snd ?r)) = []"
    by (simp_all add: quiet_def)
  from r c have "no_mount_before_unlock obs2"
    using run_no_mount_before_unlock [of stims "fst (snd ?r)" "[]" sys' obs2] by simp
  with q obs show ?thesis by (simp add: no_mount_before_unlock_append)
qed

text \<open>
  The setup of the locked container \<open>/org/x/block_1\<close>: the passphrase \<open>secret\<close> is
  supplied, the unlock succeeds, the mount succeeds.
\<close>

lemma example_setup_execution:
  "setup_execution env_locked idle
     [(env_locked, PassphraseReply ''secret''), (env_unlocked, ReplyOk 0), (env_mounted, ReplyOk 0)]
   = Some ((\<lparr>m_isAccessible = True, m_setupInProgress = False,
       m_teardownInProgress = False, m_passphraseRequested = False,
       m_lastReturnObject = ''/org/kde/solid/UDisks2StorageAccess_1'',
       number = 2\<rparr>, []),
   [Did (BroadcastActionRequested ''setup''),
    Did (RegisterObject ''/org/kde/solid/UDisks2StorageAccess_1''),
    Did (ShowPassphraseDialog ''/org/x/block_1'' '':1.7''
          ''/org/kde/solid/UDisks2StorageAccess_1'' 0 ''app''),
    Did (UnregisterObject ''/org/kde/solid/UDisks2StorageAccess_1''),
    Did (CallWithCallback (Unlock ''/org/x/block_1'' ''secret'')),
    Completed (Unlock ''/org/x/block_1'' ''secret''),
    Did (CallWithCallback (Mount ''/org/x/dm_0'' [])),
    Completed (Mount ''/org/x/dm_0'' []), Did InvalidateCache,
    Did (BroadcastActionDone ''setup'' NoError []),
    Did (AccessibilityChanged True ''/org/x/block_1'')])"
  by code_simp

text \<open>
  C5, as stated, fails: the flag is also cleared at unlock completion. When the reply to
  \<open>Unlock\<close> arrives and the cleartext sibling is already mounted (mounted by another
  party as soon as it appeared), \<open>slotDBusReply\<close> finds the device accessible, clears
  \<open>m_setupInProgress\<close>, broadcasts setup-done and rechecks accessibility; no \<open>Mount\<close> call
  is made or completed in the whole execution.
\<close>

theorem setup_done_at_unlock_completion:
  "setup_execution env_locked idle
     [(env_locked, PassphraseReply ''secret''), (env_mounted, ReplyOk 0)]
   = Some ((\<lparr>m_isAccessible = True, m_setupInProgress = False,
       m_teardownInProgress = False, m_passphraseRequested = False,
       m_lastReturnObject = ''/org/kde/solid/UDisks2StorageAccess_1'',
       number = 2\<rparr>, []),
     [Did (BroadcastActionRequested ''setup''),
      Did (RegisterObject ''/org/kde/solid/UDisks2StorageAccess_1''),
      Did (ShowPassphraseDialog ''/org/x/block_1'' '':1.7''
            ''/org/kde/solid/UDisks2StorageAccess_1'' 0 ''app''),
      Did (UnregisterObject ''/org/kde/solid/UDisks2StorageAccess_1''),
      Did (CallWithCallback (Unlock ''/org/x/block_1'' ''secret'')),
      Completed (Unlock ''/org/x/block_1'' ''secret''),
      Did InvalidateCache,
      Did (BroadcastActionDone ''setup'' NoError []),
      Did (AccessibilityChanged True ''/org/x/block_1'')])"
  by code_simp

text \<open>
  C5, amended. In every execution of \<open>setup()\<close> on an encrypted container that is still
  locked (no cleartext sibling is found), started when no call of the object is
  outstanding, whatever slots are entered afterwards and in whatever environments, no
  \<open>Mount\<close> call is made before an \<open>Unlock\<close> call has completed successfully. On a success reply while a setup is in progress on an encrypted container,
  \<open>slotDBusReply\<close> decides by accessibility, not by which call has completed: when the
  cleartext sibling is not mounted (as at an unlock completion after which nobody has
  mounted it), it makes the \<open>Mount\<close> call and leaves the state, so the flag, as it is; when
  the cleartext sibling is mounted, it clears the flag, invalidates the property cache,
  broadcasts setup-done without error and rechecks accessibility.
\<close>

theorem setup_locked_mount_after_unlock:
  "(isEncryptedContainer (m_device e0) \<and> clearTextPath e0 = []
      \<and> setup_execution e0 s0 stims = Some (sys, obs)
    \<longrightarrow> no_mount_before_unlock obs)
   \<and> (m_setupInProgress s \<and> isLuksDevice e \<longrightarrow>
        slotDBusReply e s =
          (if isAccessible e
           then (s\<lparr>m_setupInProgress := False, m_isAccessible := True\<rparr>,
                 [InvalidateCache, BroadcastActionDone ''setup'' NoError []]
                   @ (if m_isAccessible s then [] else [AccessibilityChanged True (udi e)]))
           else (s, [CallWithCallback
                  (Mount (if clearTextPath e \<noteq> [] then clearTextPath e else udi e)
                     (if IdType (m_device e) = ''vfat'' then [(''options'', ''flush'')] else []))])))"
proof (intro conjI impI)
  assume "isEncryptedContainer (m_device e0) \<and> clearTextPath e0 = []
      \<and> setup_execution e0 s0 stims = Some (sys, obs)"
  then show "no_mount_before_unlock obs"
    using setup_execution_no_mount_before_unlock [of e0 s0 stims sys obs] by simp
next
  assume a: "m_setupInProgress s \<and> isLuksDevice e"
  show "slotDBusReply e s =
          (if isAccessible e
           then (s\<lparr>m_setupInProgress := False, m_isAccessible := True\<rparr>,
                 [InvalidateCache, BroadcastActionDone ''setup'' NoError []]
                   @ (if m_isAccessible s then [] else [AccessibilityChanged True (udi e)]))
           else (s, [CallWithCallback
                  (Mount (if clearTextPath e \<noteq> [] then clearTextPath e else udi e)
                     (if IdType (m_device e) = ''vfat'' then [(''options'', ''flush'')] else []))]))"
  proof (cases "isAccessible e")
    case True
    with a show ?thesis
      by (simp add: slotDBusReply_def checkAccessibility_def updateCache_def Let_def)
  next
    case False
    with a show ?thesis
      by (simp add: slotDBusReply_def mount_def Let_def)
  qed
qed

theorem setup_locked_mount_after_unlock_witness:
  "isEncryptedContainer (m_device env_locked) \<and> clearTextPath env_locked = []
   \<and> setup_execution env_locked idle
       [(env_locked, PassphraseReply ''secret''), (env_unlocked, ReplyOk 0),
        (env_mounted, ReplyOk 0)]
     = Some ((\<lparr>m_isAccessible = True, m_setupInProgress = False,
         m_teardownInProgress = False, m_passphraseRequested = False,
         m_lastReturnObject = ''/org/kde/solid/UDisks2StorageAccess_1'',
         number = 2\<rparr>, []),
       [Did (BroadcastActionRequested ''setup''),
        Did (RegisterObject ''/org/kde/solid/UDisks2StorageAccess_1''),
        Did (ShowPassphraseDialog ''/org/x/block_1'' '':1.7''
              ''/org/kde/solid/UDisks2StorageAccess_1'' 0 ''app''),
        Did (UnregisterObject ''/org/kde/solid/UDisks2StorageAccess_1''),
        Did (CallWithCallback (Unlock ''/org/x/block_1'' ''secret'')),
        Completed (Unlock ''/org/x/block_1'' ''secret''),
        Did (CallWithCallback (Mount ''/org/x/dm_0'' [])),
        Completed (Mount ''/org/x/dm_0'' []), Did InvalidateCache,
        Did (BroadcastActionDone ''setup'' NoError []),
        Did (AccessibilityChanged True ''/org/x/block_1'')])
   \<and> no_mount_before_unlock
       [Did (BroadcastActionRequested ''setup''),
        Did (RegisterObject ''/org/kde/solid/UDisks2StorageAccess_1''),
        Did (ShowPassphraseDialog ''/org/x/block_1'' '':1.7''
              ''/org/kde/solid/UDisks2StorageAccess_1'' 0 ''app''),
        Did (UnregisterObject ''/org/kde/solid/UDisks2StorageAccess_1''),
        Did (CallWithCallback (Unlock ''/org/x/block_1'' ''secret'')),
        Completed (Unlock ''/org/x/block_1'' ''secret''),
        Did (CallWithCallback (Mount ''/org/x/dm_0'' [])),
        Completed (Mount ''/org/x/dm_0'' []), Did InvalidateCache,
        Did (BroadcastActionDone ''setup'' NoError []),
        Did (AccessibilityChanged True ''/org/x/block_1'')]
   \<and> m_setupInProgress (idle\<lparr>m_setupInProgress := True\<rparr>) \<and> isLuksDevice env_unlocked
   \<and> slotDBusReply env_unlocked (idle\<lparr>m_setupInProgress := True\<rparr>)
       = (idle\<lparr>m_setupInProgress := True\<rparr>, [CallWithCallback (Mount ''/org/x/dm_0'' [])])
   \<and> isLuksDevice env_mounted
   \<and> slotDBusReply env_mounted (idle\<lparr>m_setupInProgress := True\<rparr>)
       = (idle\<lparr>m_isAccessible := True\<rparr>,
          [InvalidateCache, BroadcastActionDone ''setup'' NoError [],
           AccessibilityChanged True ''/org/x/block_1''])"
proof -
  have h: "isEncryptedContainer (m_device env_locked)" "IdType (m_device env_unlocked) = []"
    "udi env_mounted = ''/org/x/block_1''"
    by (simp_all add: example_defs)
  have s: "m_setupInProgress (idle\<lparr>m_setupInProgress := True\<rparr>)"
    "\<not> m_isAccessible (idle\<lparr>m_setupInProgress := True\<rparr>)"
    "idle\<lparr>m_setupInProgress := True, m_setupInProgress := False, m_isAccessible := True\<rparr>
       = idle\<lparr>m_isAccessible := True\<rparr>"
    by (simp_all add: idle_def)
  note t = setup_locked_mount_after_unlock [of env_locked idle _ _ _ 
      "idle\<lparr>m_setupInProgress := True\<rparr>"]
  from t [of _ _ _ env_unlocked, THEN conjunct1, rule_format,
      OF conjI [OF h(1) conjI [OF clearTextPath_env_locked example_setup_execution]]]
    t [of _ _ _ env_unlocked, THEN conjunct2]
    t [of _ _ _ env_mounted, THEN conjunct2]
  show ?thesis
    by (simp add: h s example_setup_execution clearTextPath_env_locked clearTextPath_env_unlocked
        isLuksDevice_examples isAccessible_examples del: no_mount_before_unlock.simps)
      (simp add: idle_def)
qed

subsection \<open>Completion of a teardown\<close>

text \<open>
  C6, as stated, fails: on a successful unmount with no encrypted container involved, a
  parent drive that is not removable but can power off, of a device that is not optical,
  gets a \<open>PowerOff\<close> call.
\<close>

theorem teardown_powers_off_non_removable:
  "\<not> m_setupInProgress (idle\<lparr>m_teardownInProgress := True\<rparr>)
   \<and> m_teardownInProgress (idle\<lparr>m_teardownInProgress := True\<rparr>)
   \<and> clearTextPath (env_on_drive (no_props\<lparr>CanPowerOff := True\<rparr>)) = []
   \<and> \<not> MediaRemovable (device (env_on_drive (no_props\<lparr>CanPowerOff := True\<rparr>))
          (drivePath (m_device (env_on_drive (no_props\<lparr>CanPowerOff := True\<rparr>)))))
   \<and> snd (slotDBusReply (env_on_drive (no_props\<lparr>CanPowerOff := True\<rparr>))
         (idle\<lparr>m_teardownInProgress := True\<rparr>))
     = [CallNoBlock (PowerOff ''/org/x/drive_1''), InvalidateCache,
        BroadcastActionDone ''teardown'' NoError []]"
  by code_simp

text \<open>
  C6, amended. On the successful unmount completion of a teardown where no encrypted
  container is involved (no cleartext path is found), for a device that has a parent drive
  (its drive path is neither empty nor \<open>/\<close>): if the parent drive is removable,
  has media available and the device is not an optical disc, exactly one \<open>Eject\<close> call is
  made and no \<open>PowerOff\<close>; if the parent drive is not removable or has no media, can power
  off and the device is not optical, exactly one \<open>PowerOff\<close> call is made and no \<open>Eject\<close>;
  if the device is optical, or the parent drive is neither removable with media nor able
  to power off, neither call is made.
\<close>

theorem teardown_completion_eject_or_power_off:
  assumes "\<not> m_setupInProgress s" and "m_teardownInProgress s"
    and "clearTextPath e = [] \<or> clearTextPath e = ''/''"
    and "drivePath (m_device e) \<noteq> [] \<and> drivePath (m_device e) \<noteq> ''/''"
  shows "let drive = device e (drivePath (m_device e));
             optical = isOpticalDisc (m_device e);
             calls = filter is_daemon_call (snd (slotDBusReply e s))
         in (MediaRemovable drive \<and> MediaAvailable drive \<and> \<not> optical
               \<longrightarrow> calls = [CallNoBlock (Eject (drivePath (m_device e)))])
          \<and> (\<not> (MediaRemovable drive \<and> MediaAvailable drive) \<and> CanPowerOff drive \<and> \<not> optical
               \<longrightarrow> calls = [CallNoBlock (PowerOff (drivePath (m_device e)))])
          \<and> (optical \<or> (\<not> (MediaRemovable drive \<and> MediaAvailable drive) \<and> \<not> CanPowerOff drive)
               \<longrightarrow> calls = [])"
proof -
  have c: "filter is_daemon_call (snd (checkAccessibility e s1)) = []" for s1
    by (simp add: checkAccessibility_def Let_def)
  have r: "snd (slotDBusReply e s) =
      ejectOrPowerOff e @ [InvalidateCache, BroadcastActionDone ''teardown'' NoError []]
        @ snd (checkAccessibility e (s\<lparr>m_teardownInProgress := False\<rparr>))"
    using assms(1-3) by (auto simp: slotDBusReply_def Let_def split_beta)
  have "filter is_daemon_call (snd (slotDBusReply e s)) = ejectOrPowerOff e"
    by (simp add: r c) (simp add: ejectOrPowerOff_def Let_def)
  then show ?thesis
    by (auto simp: ejectOrPowerOff_def Let_def)
qed

theorem teardown_completion_eject_or_power_off_witness:
  "\<not> m_setupInProgress (idle\<lparr>m_teardownInProgress := True\<rparr>)
   \<and> m_teardownInProgress (idle\<lparr>m_teardownInProgress := True\<rparr>)
   \<and> clearTextPath (env_on_drive (no_props\<lparr>MediaRemovable := True, MediaAvailable := True\<rparr>)) = []
   \<and> drivePath (m_device (env_on_drive (no_props\<lparr>MediaRemovable := True, MediaAvailable := True\<rparr>)))
       = ''/org/x/drive_1''
   \<and> filter is_daemon_call
       (snd (slotDBusReply (env_on_drive (no_props\<lparr>MediaRemovable := True, MediaAvailable := True\<rparr>))
          (idle\<lparr>m_teardownInProgress := True\<rparr>)))
     = [CallNoBlock (Eject ''/org/x/drive_1'')]
   \<and> filter is_daemon_call
       (snd (slotDBusReply (env_on_drive (no_props\<lparr>CanPowerOff := True\<rparr>))
          (idle\<lparr>m_teardownInProgress := True\<rparr>)))
     = [CallNoBlock (PowerOff ''/org/x/drive_1'')]
   \<and> filter is_daemon_call
       (snd (slotDBusReply (env_on_drive no_props) (idle\<lparr>m_teardownInProgress := True\<rparr>)))
     = []"
proof -
  have s: "\<not> m_setupInProgress (idle\<lparr>m_teardownInProgress := True\<rparr>)"
    "m_teardownInProgress (idle\<lparr>m_teardownInProgress := True\<rparr>)"
    by (simp_all add: idle_def)
  have c: "clearTextPath (env_on_drive drive) = [] \<or> clearTextPath (env_on_drive drive) = ''/''"
    for drive by (simp add: clearTextPath_env_on_drive)
  have d: "drivePath (m_device (env_on_drive drive)) \<noteq> []
      \<and> drivePath (m_device (env_on_drive drive)) \<noteq> ''/''"
    for drive by (simp add: env_on_drive_def example_env_def no_props_def)
  from teardown_completion_eject_or_power_off [OF s c d,
      of "no_props\<lparr>MediaRemovable := True, MediaAvailable := True\<rparr>"]
    teardown_completion_eject_or_power_off [OF s c d, of "no_props\<lparr>CanPowerOff := True\<rparr>"]
    teardown_completion_eject_or_power_off [OF s c d, of no_props]
  show ?thesis
    by (simp add: s clearTextPath_env_on_drive Let_def)
      (simp add: env_on_drive_def example_env_def no_props_def)
qed

section \<open>Properties of the mount-table cache\<close>

subsection \<open>What a parse leaves in the caches\<close>

text \<open>The tests of the two parsers, in the words of the retention rule.\<close>

lemma fstab_keep_iff:
  "(k_isFstabNetworkFileSystem (mnt_type fe) (mnt_fsname fe)
     \<or> k_isFstabSupportedLocalFileSystem (mnt_type fe)) = retained_by_type_or_source fe"
  by (auto simp: k_isFstabNetworkFileSystem_def k_isFstabSupportedLocalFileSystem_def
      retained_by_type_or_source_def network_types_def supported_local_types_def startsWith_def
      numeral_2_eq_2)

lemma mtab_keep_iff:
  "(k_isFstabNetworkFileSystem (mnt_type fe) []
     \<or> k_isFstabSupportedLocalFileSystem (mnt_type fe)) = retained_by_type fe"
  by (auto simp: k_isFstabNetworkFileSystem_def k_isFstabSupportedLocalFileSystem_def
      retained_by_type_def network_types_def supported_local_types_def startsWith_def)

lemma fstab_entry_retained:
  "retained_by_type_or_source fe \<Longrightarrow>
     fstab_entry fe c = c\<lparr>m_fstabCache := (device_of fe, mnt_dir fe) # m_fstabCache c,
       m_fstabFstypeCache := (m_fstabFstypeCache c)(device_of fe \<mapsto> mnt_type fe),
       m_fstabOptionsCache :=
         rev (map (Pair (device_of fe)) (QString_split CHR '','' (mnt_opts fe)))
           @ m_fstabOptionsCache c\<rparr>"
proof -
  have f: "fold (\<lambda>opt oc. (d, opt) # oc) xs acc = rev (map (Pair d) xs) @ acc" for d xs acc
    by (induction xs arbitrary: acc) simp_all
  assume "retained_by_type_or_source fe"
  then show ?thesis
    using fstab_keep_iff [of fe] by (simp add: fstab_entry_def device_of_def Let_def f)
qed

lemma fstab_entry_dropped: "\<not> retained_by_type_or_source fe \<Longrightarrow> fstab_entry fe c = c"
  using fstab_keep_iff [of fe] by (simp add: fstab_entry_def Let_def)

lemma mtab_entry_retained:
  "retained_by_type fe \<Longrightarrow>
     mtab_entry fe c = c\<lparr>m_mtabCache := (device_of fe, mnt_dir fe) # m_mtabCache c,
       m_fstabFstypeCache := (m_fstabFstypeCache c)(device_of fe \<mapsto> mnt_type fe)\<rparr>"
  using mtab_keep_iff [of fe] by (simp add: mtab_entry_def device_of_def Let_def)

lemma mtab_entry_dropped: "\<not> retained_by_type fe \<Longrightarrow> mtab_entry fe c = c"
  using mtab_keep_iff [of fe] by (simp add: mtab_entry_def Let_def)

lemma fold_fstab_entry_cache:
  "m_fstabCache (fold fstab_entry es c) =
     rev (map (\<lambda>fe. (device_of fe, mnt_dir fe)) (filter retained_by_type_or_source es))
       @ m_fstabCache c"
proof (induction es arbitrary: c)
  case Nil
  show ?case by simp
next
  case (Cons fe es)
  show ?case
    by (cases "retained_by_type_or_source fe")
      (simp_all add: Cons.IH fstab_entry_retained fstab_entry_dropped)
qed

lemma fold_fstab_entry_options:
  "m_fstabOptionsCache (fold fstab_entry es c) =
     rev (concat (map (\<lambda>fe. map (Pair (device_of fe)) (QString_split CHR '','' (mnt_opts fe)))
         (filter retained_by_type_or_source es)))
       @ m_fstabOptionsCache c"
proof (induction es arbitrary: c)
  case Nil
  show ?case by simp
next
  case (Cons fe es)
  show ?case
    by (cases "retained_by_type_or_source fe")
      (simp_all add: Cons.IH fstab_entry_retained fstab_entry_dropped)
qed

lemma fold_fstab_entry_fstype:
  "m_fstabFstypeCache (fold fstab_entry es c) dev =
     (case map_of (rev (map (\<lambda>fe. (device_of fe, mnt_type fe))
              (filter retained_by_type_or_source es))) dev of
        None \<Rightarrow> m_fstabFstypeCache c dev
      | Some t \<Rightarrow> Some t)"
proof (induction es arbitrary: c)
  case Nil
  show ?case by simp
next
  case (Cons fe es)
  show ?case
    by (cases "retained_by_type_or_source fe")
      (simp_all add: Cons.IH fstab_entry_retained fstab_entry_dropped map_of_append
        map_add_def split: option.splits)
qed

lemma fold_fstab_entry_other:
  "m_mtabCache (fold fstab_entry es c) = m_mtabCache c
   \<and> m_mtabCacheValid (fold fstab_entry es c) = m_mtabCacheValid c
   \<and> m_fstabCacheValid (fold fstab_entry es c) = m_fstabCacheValid c"
proof (induction es arbitrary: c)
  case Nil
  show ?case by simp
next
  case (Cons fe es)
  show ?case
    by (cases "retained_by_type_or_source fe")
      (simp_all add: Cons.IH fstab_entry_retained fstab_entry_dropped)
qed

lemma fold_mtab_entry_cache:
  "m_mtabCache (fold mtab_entry es c) =
     rev (map (\<lambda>fe. (device_of fe, mnt_dir fe)) (filter retained_by_type es)) @ m_mtabCache c"
proof (induction es arbitrary: c)
  case Nil
  show ?case by simp
next
  case (Cons fe es)
  show ?case
    by (cases "retained_by_type fe")
      (simp_all add: Cons.IH mtab_entry_retained mtab_entry_dropped)
qed

lemma fold_mtab_entry_fstype:
  "m_fstabFstypeCache (fold mtab_entry es c) dev =
     (case map_of (rev (map (\<lambda>fe. (device_of fe, mnt_type fe)) (filter retained_by_type es))) dev of
        None \<Rightarrow> m_fstabFstypeCache c dev
      | Some t \<Rightarrow> Some t)"
proof (induction es arbitrary: c)
  case Nil
  show ?case by simp
next
  case (Cons fe es)
  show ?case
    by (cases "retained_by_type fe")
      (simp_all add: Cons.IH mtab_entry_retained mtab_entry_dropped map_of_append
        map_add_def split: option.splits)
qed

lemma fold_mtab_entry_other:
  "m_fstabCache (fold mtab_entry es c) = m_fstabCache c
   \<and> m_fstabOptionsCache (fold mtab_entry es c) = m_fstabOptionsCache c
   \<and> m_mtabCacheValid (fold mtab_entry es c) = m_mtabCacheValid c
   \<and> m_fstabCacheValid (fold mtab_entry es c) = m_fstabCacheValid c"
proof (induction es arbitrary: c)
  case Nil
  show ?case by simp
next
  case (Cons fe es)
  show ?case
    by (cases "retained_by_type fe")
      (simp_all add: Cons.IH mtab_entry_retained mtab_entry_dropped)
qed

lemma multi_values_map:
  "multi_values (map (\<lambda>fe. (device_of fe, g fe)) fes) dev = map g (of_device dev fes)"
  by (induction fes) (simp_all add: multi_values_def of_device_def)

lemma multi_keys_map: "multi_keys (map (\<lambda>fe. (device_of fe, g fe)) fes) = map device_of fes"
  by (simp add: multi_keys_def comp_def)

lemma set_removeDuplicates_from: "set (removeDuplicates_from seen xs) = set xs - set seen"
  by (induction seen xs rule: removeDuplicates_from.induct) auto

lemma set_removeDuplicates: "set (removeDuplicates xs) = set xs"
  by (simp add: removeDuplicates_def set_removeDuplicates_from)

lemma update_fstab_valid: "m_fstabCacheValid c \<Longrightarrow> k_updateFstabMountPointsCache files c = c"
  by (simp add: k_updateFstabMountPointsCache_def)

lemma update_mtab_valid: "m_mtabCacheValid c \<Longrightarrow> k_updateMtabMountPointsCache files c = c"
  by (simp add: k_updateMtabMountPointsCache_def)

lemma update_fstab_parsed:
  assumes "\<not> m_fstabCacheValid c" and "fstab files = Some es"
  shows "m_fstabCache (k_updateFstabMountPointsCache files c)
           = map (\<lambda>fe. (device_of fe, mnt_dir fe)) (kept_fstab es)"
    and "m_fstabOptionsCache (k_updateFstabMountPointsCache files c)
           = concat (map (\<lambda>fe. map (Pair (device_of fe)) (options_of fe)) (kept_fstab es))"
    and "m_fstabFstypeCache (k_updateFstabMountPointsCache files c) dev
           = (case of_device dev (kept_fstab es) of
                [] \<Rightarrow> m_fstabFstypeCache c dev
              | fe # fes \<Rightarrow> Some (mnt_type fe))"
    and "m_fstabCacheValid (k_updateFstabMountPointsCache files c)"
    and "m_mtabCache (k_updateFstabMountPointsCache files c) = m_mtabCache c"
    and "m_mtabCacheValid (k_updateFstabMountPointsCache files c) = m_mtabCacheValid c"
proof -
  have m: "map_of (map (\<lambda>fe. (device_of fe, mnt_type fe)) fes) dev
      = (case of_device dev fes of [] \<Rightarrow> None | fe # fes \<Rightarrow> Some (mnt_type fe))" for fes
    by (induction fes) (simp_all add: of_device_def)
  have r: "rev (concat (map (\<lambda>fe. map (Pair (device_of fe)) (QString_split CHR '','' (mnt_opts fe))) fes))
      = concat (map (\<lambda>fe. map (Pair (device_of fe)) (options_of fe)) (rev fes))" for fes
    by (induction fes) (simp_all add: options_of_def rev_map)
  let ?c = "k_updateFstabMountPointsCache files c"
  from assms show "m_fstabCache ?c = map (\<lambda>fe. (device_of fe, mnt_dir fe)) (kept_fstab es)"
    by (simp add: k_updateFstabMountPointsCache_def fold_fstab_entry_cache kept_fstab_def rev_map)
  from assms show "m_fstabOptionsCache ?c
      = concat (map (\<lambda>fe. map (Pair (device_of fe)) (options_of fe)) (kept_fstab es))"
    by (simp add: k_updateFstabMountPointsCache_def fold_fstab_entry_options kept_fstab_def r)
  from assms show "m_fstabFstypeCache ?c dev
      = (case of_device dev (kept_fstab es) of
           [] \<Rightarrow> m_fstabFstypeCache c dev
         | fe # fes \<Rightarrow> Some (mnt_type fe))"
    using m [of "rev (filter retained_by_type_or_source es)"]
    by (simp add: k_updateFstabMountPointsCache_def fold_fstab_entry_fstype kept_fstab_def
        rev_map split: list.splits)
  from assms show "m_fstabCacheValid ?c"
    by (simp add: k_updateFstabMountPointsCache_def)
  from assms show "m_mtabCache ?c = m_mtabCache c"
    by (simp add: k_updateFstabMountPointsCache_def fold_fstab_entry_other)
  from assms show "m_mtabCacheValid ?c = m_mtabCacheValid c"
    by (simp add: k_updateFstabMountPointsCache_def fold_fstab_entry_other)
qed

lemma update_mtab_parsed:
  assumes "\<not> m_mtabCacheValid c" and "mtab files = Some es"
  shows "m_mtabCache (k_updateMtabMountPointsCache files c)
           = map (\<lambda>fe. (device_of fe, mnt_dir fe)) (kept_mtab es)"
    and "m_fstabFstypeCache (k_updateMtabMountPointsCache files c) dev
           = (case of_device dev (kept_mtab es) of
                [] \<Rightarrow> m_fstabFstypeCache c dev
              | fe # fes \<Rightarrow> Some (mnt_type fe))"
    and "m_mtabCacheValid (k_updateMtabMountPointsCache files c)"
    and "m_fstabCache (k_updateMtabMountPointsCache files c) = m_fstabCache c"
    and "m_fstabOptionsCache (k_updateMtabMountPointsCache files c) = m_fstabOptionsCache c"
    and "m_fstabCacheValid (k_updateMtabMountPointsCache files c) = m_fstabCacheValid c"
proof -
  have m: "map_of (map (\<lambda>fe. (device_of fe, mnt_type fe)) fes) dev
      = (case of_device dev fes of [] \<Rightarrow> None | fe # fes \<Rightarrow> Some (mnt_type fe))" for fes
    by (induction fes) (simp_all add: of_device_def)
  let ?c = "k_updateMtabMountPointsCache files c"
  from assms show "m_mtabCache ?c = map (\<lambda>fe. (device_of fe, mnt_dir fe)) (kept_mtab es)"
    by (simp add: k_updateMtabMountPointsCache_def fold_mtab_entry_cache kept_mtab_def rev_map)
  from assms show "m_fstabFstypeCache ?c dev
      = (case of_device dev (kept_mtab es) of
           [] \<Rightarrow> m_fstabFstypeCache c dev
         | fe # fes \<Rightarrow> Some (mnt_type fe))"
    using m [of "rev (filter retained_by_type es)"]
    by (simp add: k_updateMtabMountPointsCache_def fold_mtab_entry_fstype kept_mtab_def
        rev_map split: list.splits)
  from assms show "m_mtabCacheValid ?c"
    by (simp add: k_updateMtabMountPointsCache_def)
  from assms show "m_fstabCache ?c = m_fstabCache c"
    by (simp add: k_updateMtabMountPointsCache_def fold_mtab_entry_other)
  from assms show "m_fstabOptionsCache ?c = m_fstabOptionsCache c"
    by (simp add: k_updateMtabMountPointsCache_def fold_mtab_entry_other)
  from assms show "m_fstabCacheValid ?c = m_fstabCacheValid c"
    by (simp add: k_updateMtabMountPointsCache_def fold_mtab_entry_other)
qed

lemma update_mtab_keeps_fstab:
  "m_fstabCache (k_updateMtabMountPointsCache files c) = m_fstabCache c"
  "m_fstabOptionsCache (k_updateMtabMountPointsCache files c) = m_fstabOptionsCache c"
  "m_fstabCacheValid (k_updateMtabMountPointsCache files c) = m_fstabCacheValid c"
  by (simp_all add: k_updateMtabMountPointsCache_def Let_def fold_mtab_entry_other
      split: option.splits)

lemma update_fstab_keeps_mtab:
  "m_mtabCache (k_updateFstabMountPointsCache files c) = m_mtabCache c"
  "m_mtabCacheValid (k_updateFstabMountPointsCache files c) = m_mtabCacheValid c"
  by (simp_all add: k_updateFstabMountPointsCache_def Let_def fold_fstab_entry_other
      split: option.splits)

subsection \<open>Queries on valid caches\<close>

lemma ask_valid:
  assumes "m_fstabCacheValid c" and "m_mtabCacheValid c"
  shows "ask files q c = (fst (ask files0 q c), c)"
  using assms
  by (cases q)
    (simp_all add: mountPoints_def options_def fstype_def deviceList_def currentMountPoints_def
      update_fstab_valid update_mtab_valid)

lemma asks_valid:
  assumes "m_fstabCacheValid c" and "m_mtabCacheValid c"
  shows "asks qs c = (map (\<lambda>fq. fst (ask files0 (snd fq) c)) qs, c)"
proof (induction qs)
  case Nil
  show ?case by simp
next
  case (Cons fq qs)
  obtain files q where fq: "fq = (files, q)" by (cases fq)
  show ?case
    by (simp add: fq Cons.IH ask_valid [OF assms, of files q files0])
qed

lemma flush_simps:
  "\<not> m_fstabCacheValid (flushFstabCache c)" "\<not> m_mtabCacheValid (flushMtabCache c)"
  "m_mtabCacheValid (flushFstabCache c) = m_mtabCacheValid c"
  "m_fstabCacheValid (flushMtabCache c) = m_fstabCacheValid c"
  "m_fstabFstypeCache (flushFstabCache c) = m_fstabFstypeCache c"
  "m_fstabFstypeCache (flushMtabCache c) = m_fstabFstypeCache c"
  by (simp_all add: flushFstabCache_def flushMtabCache_def)

lemma of_device_member:
  "fe \<in> set fes \<Longrightarrow> fe \<in> set (of_device (device_of fe) fes)"
  by (simp add: of_device_def)

lemma multi_values_options:
  "multi_values (concat (map (\<lambda>fe. map (Pair (device_of fe)) (options_of fe)) fes)) dev
     = concat (map options_of (of_device dev fes))"
  by (induction fes) (auto simp: multi_values_def of_device_def comp_def)

lemma both_parsed:
  assumes "\<not> m_fstabCacheValid c" and "\<not> m_mtabCacheValid c"
    and "fstab files = Some es" and "mtab files = Some ms"
  shows "m_fstabCache (k_updateMtabMountPointsCache files (k_updateFstabMountPointsCache files c))
           = map (\<lambda>fe. (device_of fe, mnt_dir fe)) (kept_fstab es)"
    and "m_mtabCache (k_updateMtabMountPointsCache files (k_updateFstabMountPointsCache files c))
           = map (\<lambda>fe. (device_of fe, mnt_dir fe)) (kept_mtab ms)"
    and "m_fstabOptionsCache
           (k_updateMtabMountPointsCache files (k_updateFstabMountPointsCache files c))
           = concat (map (\<lambda>fe. map (Pair (device_of fe)) (options_of fe)) (kept_fstab es))"
    and "m_fstabFstypeCache
           (k_updateMtabMountPointsCache files (k_updateFstabMountPointsCache files c)) dev
           = (case of_device dev (kept_mtab ms) of
                [] \<Rightarrow> (case of_device dev (kept_fstab es) of
                         [] \<Rightarrow> m_fstabFstypeCache c dev
                       | fe # fes \<Rightarrow> Some (mnt_type fe))
              | fe # fes \<Rightarrow> Some (mnt_type fe))"
    and "m_fstabCacheValid
           (k_updateMtabMountPointsCache files (k_updateFstabMountPointsCache files c))"
    and "m_mtabCacheValid
           (k_updateMtabMountPointsCache files (k_updateFstabMountPointsCache files c))"
proof -
  let ?c1 = "k_updateFstabMountPointsCache files c"
  note f = update_fstab_parsed [OF assms(1,3)]
  have "\<not> m_mtabCacheValid ?c1" using assms(2) by (simp add: f)
  note m = update_mtab_parsed [OF this assms(4)]
  show "m_fstabCache (k_updateMtabMountPointsCache files ?c1)
      = map (\<lambda>fe. (device_of fe, mnt_dir fe)) (kept_fstab es)"
    by (simp add: m f)
  show "m_mtabCache (k_updateMtabMountPointsCache files ?c1)
      = map (\<lambda>fe. (device_of fe, mnt_dir fe)) (kept_mtab ms)"
    by (simp add: m)
  show "m_fstabOptionsCache (k_updateMtabMountPointsCache files ?c1)
      = concat (map (\<lambda>fe. map (Pair (device_of fe)) (options_of fe)) (kept_fstab es))"
    by (simp add: m f)
  show "m_fstabFstypeCache (k_updateMtabMountPointsCache files ?c1) dev
      = (case of_device dev (kept_mtab ms) of
           [] \<Rightarrow> (case of_device dev (kept_fstab es) of
                    [] \<Rightarrow> m_fstabFstypeCache c dev
                  | fe # fes \<Rightarrow> Some (mnt_type fe))
         | fe # fes \<Rightarrow> Some (mnt_type fe))"
    by (simp add: m f split: list.splits)
  show "m_fstabCacheValid (k_updateMtabMountPointsCache files ?c1)"
    by (simp add: m f)
  show "m_mtabCacheValid (k_updateMtabMountPointsCache files ?c1)"
    by (simp add: m)
qed

subsection \<open>The example tables\<close>

lemmas table_defs = smb3_share_def nfs_share_def encfs_mount_def root_ext4_def
  files_before_def files_after_def files_smb3_def

lemma retained_examples:
  "retained_by_type_or_source nfs_share" "retained_by_type_or_source smb3_share"
  "\<not> retained_by_type_or_source root_ext4" "\<not> retained_by_type_or_source encfs_mount \<longrightarrow> False"
  "retained_by_type encfs_mount" "\<not> retained_by_type smb3_share" "\<not> retained_by_type root_ext4"
  "retained_by_type nfs_share"
  by (simp_all add: retained_by_type_or_source_def retained_by_type_def network_types_def
      supported_local_types_def table_defs)

lemma device_of_examples:
  "device_of nfs_share = ''server:/export''" "device_of smb3_share = ''//server/share''"
  "device_of encfs_mount = ''fuse.encfs/home/u/Private''" "device_of root_ext4 = ''/dev/sda1''"
  by (simp_all add: device_of_def k_deviceNameForMountpoint_def startsWith_def table_defs)

lemma kept_examples:
  "kept_fstab [root_ext4, nfs_share] = [nfs_share]"
  "kept_mtab [root_ext4] = []"
  "kept_fstab [root_ext4, nfs_share, smb3_share] = [smb3_share, nfs_share]"
  "kept_mtab [root_ext4, encfs_mount, smb3_share] = [encfs_mount]"
  using retained_examples by (simp_all add: kept_fstab_def kept_mtab_def)

subsection \<open>Stability of the caches\<close>

text \<open>
  C8, as stated, fails: two queries with no invalidation between them can differ. First,
  with both files unchanged and readable, \<open>fstype\<close> answers the empty string, then a
  \<open>mountPoints\<close> query parses the live table, which also fills the filesystem-type map, and
  the same \<open>fstype\<close> query answers \<open>fuse.encfs\<close>. Second, when the static file cannot be
  opened, the parser returns before it sets the validity flag, so the next \<open>options\<close>
  query parses again and lists the options of an entry that is in the file by then.
\<close>

theorem queries_differ_without_invalidation:
  "fst (asks
     [(\<lparr>fstab = Some [root_ext4], mtab = Some [root_ext4, encfs_mount]\<rparr>,
         Fstype ''fuse.encfs/home/u/Private''),
      (\<lparr>fstab = Some [root_ext4], mtab = Some [root_ext4, encfs_mount]\<rparr>,
         MountPoints ''fuse.encfs/home/u/Private''),
      (\<lparr>fstab = Some [root_ext4], mtab = Some [root_ext4, encfs_mount]\<rparr>,
         Fstype ''fuse.encfs/home/u/Private'')]
     FstabHandling_init)
   = [String [], Strings [''/home/u/Private''], String ''fuse.encfs'']
   \<and> fst (asks
     [(\<lparr>fstab = None, mtab = Some [root_ext4]\<rparr>, Options ''server:/export''),
      (\<lparr>fstab = Some [root_ext4, nfs_share], mtab = Some [root_ext4]\<rparr>, Options ''server:/export'')]
     FstabHandling_init)
   = [Strings [], Strings [''noauto'', ''rw'']]"
  by code_simp

text \<open>
  C8, amended. Once both caches are valid, every query (\<open>mountPoints\<close>, \<open>options\<close>,
  \<open>fstype\<close>, \<open>deviceList\<close>, \<open>currentMountPoints\<close>) leaves the state as it is and its answer
  does not depend on the files: any sequence of queries, each with the files as they are at
  its moment, returns the answers fixed by the cached state, until \<open>flushFstabCache\<close> or
  \<open>flushMtabCache\<close> is called. After \<open>flushFstabCache\<close>, if the static file can be opened,
  the next parse makes the cache valid again and the mount-point and option caches hold
  exactly the retained entries of the file as it is now, so each retained entry of the
  file is in the answers of \<open>mountPoints\<close>, \<open>deviceList\<close> and \<open>options\<close>. After
  \<open>flushMtabCache\<close>, if the live table can be opened, the same holds for the live cache and
  \<open>currentMountPoints\<close>.
\<close>

theorem caches_stable_while_valid:
  "(m_fstabCacheValid c \<and> m_mtabCacheValid c \<longrightarrow>
      asks qs c = (map (\<lambda>fq. fst (ask files0 (snd fq) c)) qs, c))
   \<and> (fstab files = Some es \<longrightarrow>
        m_fstabCacheValid (k_updateFstabMountPointsCache files (flushFstabCache c))
        \<and> m_fstabCache (k_updateFstabMountPointsCache files (flushFstabCache c))
            = map (\<lambda>fe. (device_of fe, mnt_dir fe)) (kept_fstab es)
        \<and> m_fstabOptionsCache (k_updateFstabMountPointsCache files (flushFstabCache c))
            = concat (map (\<lambda>fe. map (Pair (device_of fe)) (options_of fe)) (kept_fstab es))
        \<and> (fe \<in> set es \<and> retained_by_type_or_source fe \<longrightarrow>
              mnt_dir fe \<in> set (fst (mountPoints files (device_of fe) (flushFstabCache c)))
              \<and> device_of fe \<in> set (fst (deviceList files (flushFstabCache c)))
              \<and> set (options_of fe) \<subseteq> set (fst (options files (device_of fe) (flushFstabCache c)))))
   \<and> (mtab files = Some ms \<longrightarrow>
        m_mtabCacheValid (k_updateMtabMountPointsCache files (flushMtabCache c))
        \<and> m_mtabCache (k_updateMtabMountPointsCache files (flushMtabCache c))
            = map (\<lambda>fe. (device_of fe, mnt_dir fe)) (kept_mtab ms)
        \<and> (fe \<in> set ms \<and> retained_by_type fe \<longrightarrow>
              mnt_dir fe \<in> set (fst (currentMountPoints files (device_of fe) (flushMtabCache c)))))"
proof (intro conjI impI)
  assume "m_fstabCacheValid c \<and> m_mtabCacheValid c"
  then show "asks qs c = (map (\<lambda>fq. fst (ask files0 (snd fq) c)) qs, c)"
    by (simp add: asks_valid)
next
  assume f: "fstab files = Some es"
  note p = update_fstab_parsed [OF flush_simps(1) f, of c]
  show "m_fstabCacheValid (k_updateFstabMountPointsCache files (flushFstabCache c))"
    by (rule p)
  show "m_fstabCache (k_updateFstabMountPointsCache files (flushFstabCache c))
      = map (\<lambda>fe. (device_of fe, mnt_dir fe)) (kept_fstab es)"
    by (rule p)
  show "m_fstabOptionsCache (k_updateFstabMountPointsCache files (flushFstabCache c))
      = concat (map (\<lambda>fe. map (Pair (device_of fe)) (options_of fe)) (kept_fstab es))"
    by (rule p)
  assume "fe \<in> set es \<and> retained_by_type_or_source fe"
  then have k: "fe \<in> set (kept_fstab es)" by (simp add: kept_fstab_def)
  then have d: "fe \<in> set (of_device (device_of fe) (kept_fstab es))" by (rule of_device_member)
  let ?c1 = "k_updateFstabMountPointsCache files (flushFstabCache c)"
  have "mnt_dir fe \<in> set (multi_values (m_fstabCache ?c1) (device_of fe))"
    using d by (simp add: p(1) multi_values_map)
  moreover have "m_fstabCache (k_updateMtabMountPointsCache files ?c1) = m_fstabCache ?c1"
    by (rule update_mtab_keeps_fstab)
  ultimately show "mnt_dir fe \<in> set (fst (mountPoints files (device_of fe) (flushFstabCache c)))"
    by (simp add: mountPoints_def Let_def set_removeDuplicates)
  have "device_of fe \<in> set (multi_keys (m_fstabCache ?c1))"
    using k by (simp add: p(1) multi_keys_map)
  with \<open>m_fstabCache (k_updateMtabMountPointsCache files ?c1) = m_fstabCache ?c1\<close>
  show "device_of fe \<in> set (fst (deviceList files (flushFstabCache c)))"
    by (simp add: deviceList_def Let_def set_removeDuplicates)
  have "multi_values (concat (map (\<lambda>fe. map (Pair (device_of fe)) (options_of fe)) fes)) dev
      = concat (map options_of (of_device dev fes))" for fes dev
    by (induction fes) (auto simp: multi_values_def of_device_def comp_def)
  with d show "set (options_of fe) \<subseteq> set (fst (options files (device_of fe) (flushFstabCache c)))"
    by (auto simp: options_def Let_def p(2))
next
  assume m: "mtab files = Some ms"
  note p = update_mtab_parsed [OF flush_simps(2) m, of c]
  show "m_mtabCacheValid (k_updateMtabMountPointsCache files (flushMtabCache c))"
    by (rule p)
  show "m_mtabCache (k_updateMtabMountPointsCache files (flushMtabCache c))
      = map (\<lambda>fe. (device_of fe, mnt_dir fe)) (kept_mtab ms)"
    by (rule p)
  assume "fe \<in> set ms \<and> retained_by_type fe"
  then have "fe \<in> set (kept_mtab ms)" by (simp add: kept_mtab_def)
  then have "fe \<in> set (of_device (device_of fe) (kept_mtab ms))" by (rule of_device_member)
  then show "mnt_dir fe \<in> set (fst (currentMountPoints files (device_of fe) (flushMtabCache c)))"
    by (simp add: currentMountPoints_def Let_def p(1) multi_values_map)
qed

theorem caches_stable_while_valid_witness:
  "m_fstabCacheValid cache_before \<and> m_mtabCacheValid cache_before
   \<and> asks [(files_before, MountPoints ''server:/export''),
            (files_after, MountPoints ''server:/export''),
            (files_after, CurrentMountPoints ''fuse.encfs/home/u/Private'')] cache_before
       = ([Strings [], Strings [], Strings [''/home/u/Private'']], cache_before)
   \<and> fstab files_after = Some [root_ext4, nfs_share]
   \<and> nfs_share \<in> set [root_ext4, nfs_share] \<and> retained_by_type_or_source nfs_share
   \<and> ''/mnt/nfs'' \<in> set (fst (mountPoints files_after ''server:/export'' (flushFstabCache cache_before)))
   \<and> mtab files_before = Some [root_ext4, encfs_mount]
   \<and> encfs_mount \<in> set [root_ext4, encfs_mount] \<and> retained_by_type encfs_mount
   \<and> ''/home/u/Private'' \<in> set (fst (currentMountPoints files_before ''fuse.encfs/home/u/Private''
         (flushMtabCache FstabHandling_init)))"
proof -
  have v: "m_fstabCacheValid cache_before" "m_mtabCacheValid cache_before"
    by (simp_all add: cache_before_def)
  have a: "fst (ask files_before (MountPoints ''server:/export'') cache_before) = Strings []"
    "fst (ask files_before (CurrentMountPoints ''fuse.encfs/home/u/Private'') cache_before)
       = Strings [''/home/u/Private'']"
    by (simp_all add: mountPoints_def currentMountPoints_def update_fstab_valid update_mtab_valid
        v Let_def)
      (simp_all add: cache_before_def multi_values_def removeDuplicates_def)
  have f: "fstab files_after = Some [root_ext4, nfs_share]"
    "mtab files_before = Some [root_ext4, encfs_mount]"
    by (simp_all add: table_defs)
  have d: "mnt_dir nfs_share = ''/mnt/nfs''" "mnt_dir encfs_mount = ''/home/u/Private''"
    by (simp_all add: table_defs)
  note t = caches_stable_while_valid [of cache_before
      "[(files_before, MountPoints ''server:/export''),
        (files_after, MountPoints ''server:/export''),
        (files_after, CurrentMountPoints ''fuse.encfs/home/u/Private'')]"
      files_before files_after "[root_ext4, nfs_share]" nfs_share]
  note t1 = t [THEN conjunct1, rule_format, OF conjI [OF v]]
  note t2 = t [THEN conjunct2, THEN conjunct1, rule_format, OF f(1)]
  note t3 = caches_stable_while_valid [of FstabHandling_init _ _ files_before _ encfs_mount
      "[root_ext4, encfs_mount]", THEN conjunct2, THEN conjunct2, rule_format, OF f(2)]
  from t1 t2 t3 show ?thesis
    by (simp add: v a f d retained_examples device_of_examples del: ask.simps asks.simps)
qed

subsection \<open>The retention rule\<close>

text \<open>
  C9, as stated, fails for the live mount table: its parser gives the network test an
  empty device name, so an entry whose source name starts with \<open>//\<close> and whose type is
  not one of \<open>nfs\<close>, \<open>nfs4\<close>, \<open>smbfs\<close>, \<open>cifs\<close> is dropped, although it meets the rule of
  the claim.
\<close>

theorem mtab_drops_double_slash_source:
  "(mnt_type smb3_share \<in> set network_types \<or> take 2 (mnt_fsname smb3_share) = ''//''
      \<or> mnt_type smb3_share \<in> set supported_local_types)
   \<and> m_mtabCache (k_updateMtabMountPointsCache
         \<lparr>fstab = Some [], mtab = Some [smb3_share]\<rparr> FstabHandling_init) = []
   \<and> fst (asks
       [(\<lparr>fstab = Some [], mtab = Some [smb3_share]\<rparr>, CurrentMountPoints ''//server/share''),
        (\<lparr>fstab = Some [], mtab = Some [smb3_share]\<rparr>, MountPoints ''//server/share''),
        (\<lparr>fstab = Some [], mtab = Some [smb3_share]\<rparr>, DeviceList)]
       FstabHandling_init)
     = [Strings [], Strings [], Strings []]"
  by code_simp

text \<open>
  C9, amended. A parse of the static file retains an entry if and only if its type is
  \<open>nfs\<close>, \<open>nfs4\<close>, \<open>smbfs\<close> or \<open>cifs\<close>, or its source name starts with \<open>//\<close>, or its type
  is \<open>fuse.encfs\<close>, \<open>fuse.cryfs\<close> or \<open>overlay\<close>. A parse of the live mount table retains an
  entry if and only if its type is one of these seven; the source name is not looked at.
  The mount-point and option caches hold exactly the retained entries, and the answers of
  the queries are computed from the retained entries alone (\<open>fstype\<close> falls back on what
  the filesystem-type map held before).
\<close>

theorem parse_retains_by_rule:
  "(\<not> m_fstabCacheValid c \<and> fstab files = Some es \<longrightarrow>
      m_fstabCache (k_updateFstabMountPointsCache files c)
        = map (\<lambda>fe. (device_of fe, mnt_dir fe)) (rev (filter retained_by_type_or_source es))
      \<and> m_fstabOptionsCache (k_updateFstabMountPointsCache files c)
        = concat (map (\<lambda>fe. map (Pair (device_of fe)) (options_of fe))
            (rev (filter retained_by_type_or_source es))))
   \<and> (\<not> m_mtabCacheValid c \<and> mtab files = Some ms \<longrightarrow>
      m_mtabCache (k_updateMtabMountPointsCache files c)
        = map (\<lambda>fe. (device_of fe, mnt_dir fe)) (rev (filter retained_by_type ms)))
   \<and> (\<not> m_fstabCacheValid c \<and> \<not> m_mtabCacheValid c
        \<and> fstab files = Some es \<and> mtab files = Some ms \<longrightarrow>
      fst (mountPoints files dev c)
        = removeDuplicates (map mnt_dir (of_device dev (kept_fstab es))
            @ map mnt_dir (of_device dev (kept_mtab ms)))
      \<and> fst (deviceList files c)
        = removeDuplicates (map device_of (kept_fstab es) @ map device_of (kept_mtab ms))
      \<and> fst (options files dev c) = concat (map options_of (of_device dev (kept_fstab es)))
      \<and> fst (currentMountPoints files dev c) = map mnt_dir (of_device dev (kept_mtab ms))
      \<and> fst (fstype files dev c)
        = (case of_device dev (kept_fstab es) of
             [] \<Rightarrow> (case m_fstabFstypeCache c dev of None \<Rightarrow> [] | Some t \<Rightarrow> t)
           | fe # fes \<Rightarrow> mnt_type fe))"
proof (intro conjI impI)
  assume a: "\<not> m_fstabCacheValid c \<and> fstab files = Some es"
  then show "m_fstabCache (k_updateFstabMountPointsCache files c)
      = map (\<lambda>fe. (device_of fe, mnt_dir fe)) (rev (filter retained_by_type_or_source es))"
    using update_fstab_parsed(1) [of c files es] by (simp add: kept_fstab_def)
  from a show "m_fstabOptionsCache (k_updateFstabMountPointsCache files c)
      = concat (map (\<lambda>fe. map (Pair (device_of fe)) (options_of fe))
          (rev (filter retained_by_type_or_source es)))"
    using update_fstab_parsed(2) [of c files es] by (simp add: kept_fstab_def)
next
  assume "\<not> m_mtabCacheValid c \<and> mtab files = Some ms"
  then show "m_mtabCache (k_updateMtabMountPointsCache files c)
      = map (\<lambda>fe. (device_of fe, mnt_dir fe)) (rev (filter retained_by_type ms))"
    using update_mtab_parsed(1) [of c files ms] by (simp add: kept_mtab_def)
next
  assume a: "\<not> m_fstabCacheValid c \<and> \<not> m_mtabCacheValid c
      \<and> fstab files = Some es \<and> mtab files = Some ms"
  then have a1: "\<not> m_fstabCacheValid c" and a2: "\<not> m_mtabCacheValid c"
    and a3: "fstab files = Some es" and a4: "mtab files = Some ms"
    by simp_all
  note b = both_parsed [OF a1 a2 a3 a4]
  show "fst (mountPoints files dev c)
      = removeDuplicates (map mnt_dir (of_device dev (kept_fstab es))
          @ map mnt_dir (of_device dev (kept_mtab ms)))"
    by (simp add: mountPoints_def Let_def b multi_values_map)
  show "fst (deviceList files c)
      = removeDuplicates (map device_of (kept_fstab es) @ map device_of (kept_mtab ms))"
    by (simp add: deviceList_def Let_def b multi_keys_map)
  show "fst (options files dev c) = concat (map options_of (of_device dev (kept_fstab es)))"
    by (simp add: options_def Let_def update_fstab_parsed [OF a1 a3] multi_values_options)
  show "fst (currentMountPoints files dev c) = map mnt_dir (of_device dev (kept_mtab ms))"
    by (simp add: currentMountPoints_def Let_def update_mtab_parsed [OF a2 a4] multi_values_map)
  show "fst (fstype files dev c)
      = (case of_device dev (kept_fstab es) of
           [] \<Rightarrow> (case m_fstabFstypeCache c dev of None \<Rightarrow> [] | Some t \<Rightarrow> t)
         | fe # fes \<Rightarrow> mnt_type fe)"
    by (simp add: fstype_def Let_def update_fstab_parsed [OF a1 a3] split: list.splits)
qed

theorem parse_retains_by_rule_witness:
  "\<not> m_fstabCacheValid FstabHandling_init \<and> \<not> m_mtabCacheValid FstabHandling_init
   \<and> fstab files_smb3 = Some [root_ext4, nfs_share, smb3_share]
   \<and> mtab files_smb3 = Some [root_ext4, encfs_mount, smb3_share]
   \<and> m_fstabCache (k_updateFstabMountPointsCache files_smb3 FstabHandling_init)
       = [(''//server/share'', ''/mnt/share''), (''server:/export'', ''/mnt/nfs'')]
   \<and> m_mtabCache (k_updateMtabMountPointsCache files_smb3 FstabHandling_init)
       = [(''fuse.encfs/home/u/Private'', ''/home/u/Private'')]
   \<and> fst (mountPoints files_smb3 ''//server/share'' FstabHandling_init) = [''/mnt/share'']
   \<and> fst (currentMountPoints files_smb3 ''//server/share'' FstabHandling_init) = []
   \<and> fst (deviceList files_smb3 FstabHandling_init)
       = [''//server/share'', ''server:/export'', ''fuse.encfs/home/u/Private'']"
proof -
  have v: "\<not> m_fstabCacheValid FstabHandling_init" "\<not> m_mtabCacheValid FstabHandling_init"
    by (simp_all add: FstabHandling_init_def)
  have f: "fstab files_smb3 = Some [root_ext4, nfs_share, smb3_share]"
    "mtab files_smb3 = Some [root_ext4, encfs_mount, smb3_share]"
    by (simp_all add: files_smb3_def)
  have d: "mnt_dir nfs_share = ''/mnt/nfs''" "mnt_dir encfs_mount = ''/home/u/Private''"
    "mnt_dir smb3_share = ''/mnt/share''"
    by (simp_all add: table_defs)
  note t = parse_retains_by_rule [of FstabHandling_init files_smb3
      "[root_ext4, nfs_share, smb3_share]" "[root_ext4, encfs_mount, smb3_share]"
      "''//server/share''"]
  note t1 = t [THEN conjunct1, rule_format, OF conjI [OF v(1) f(1)]]
  note t2 = t [THEN conjunct2, THEN conjunct1, rule_format, OF conjI [OF v(2) f(2)]]
  note t3 = t [THEN conjunct2, THEN conjunct2, rule_format,
      OF conjI [OF v(1) conjI [OF v(2) conjI [OF f]]]]
  from t1 t2 t3 show ?thesis
    by (simp add: v f d retained_examples device_of_examples kept_examples of_device_def
        removeDuplicates_def)
qed

subsection \<open>The filesystem-type map\<close>

text \<open>
  C10. The filesystem-type map is never cleared. A device that has a type in the map
  still has one after \<open>flushFstabCache\<close> and a parse of the static file, and after
  \<open>flushMtabCache\<close> and a parse of the live table: both parsers only insert. A parse of an
  empty static file clears the mount-point and option caches and nothing else. So after
  both caches have been invalidated and both files parsed again in full, a device that has
  no retained entry in either file has no mount points and no options, and \<open>fstype\<close> still
  returns its old type.
\<close>

theorem fstype_cache_never_cleared:
  "m_fstabFstypeCache c dev = Some t \<longrightarrow>
     m_fstabFstypeCache (k_updateFstabMountPointsCache files (flushFstabCache c)) dev \<noteq> None
     \<and> m_fstabFstypeCache (k_updateMtabMountPointsCache files (flushMtabCache c)) dev \<noteq> None
     \<and> (fstab files = Some [] \<longrightarrow>
          k_updateFstabMountPointsCache files (flushFstabCache c)
            = c\<lparr>m_fstabCache := [], m_fstabOptionsCache := [], m_fstabCacheValid := True\<rparr>)
     \<and> (fstab files = Some es \<and> mtab files = Some ms
          \<and> of_device dev (kept_fstab es) = [] \<and> of_device dev (kept_mtab ms) = [] \<longrightarrow>
          fst (asks [(files, MountPoints dev), (files, Options dev), (files, Fstype dev)]
                 (flushMtabCache (flushFstabCache c)))
            = [Strings [], Strings [], String t])"
proof (intro impI conjI)
  assume t: "m_fstabFstypeCache c dev = Some t"
  show "m_fstabFstypeCache (k_updateFstabMountPointsCache files (flushFstabCache c)) dev \<noteq> None"
    using t
    by (simp add: k_updateFstabMountPointsCache_def flushFstabCache_def Let_def
        fold_fstab_entry_fstype split: option.splits)
  show "m_fstabFstypeCache (k_updateMtabMountPointsCache files (flushMtabCache c)) dev \<noteq> None"
    using t
    by (simp add: k_updateMtabMountPointsCache_def flushMtabCache_def Let_def
        fold_mtab_entry_fstype split: option.splits)
  show "k_updateFstabMountPointsCache files (flushFstabCache c)
      = c\<lparr>m_fstabCache := [], m_fstabOptionsCache := [], m_fstabCacheValid := True\<rparr>"
    if "fstab files = Some []"
    using that by (simp add: k_updateFstabMountPointsCache_def flushFstabCache_def)
  assume a: "fstab files = Some es \<and> mtab files = Some ms
      \<and> of_device dev (kept_fstab es) = [] \<and> of_device dev (kept_mtab ms) = []"
  let ?c0 = "flushMtabCache (flushFstabCache c)"
  let ?c3 = "k_updateMtabMountPointsCache files (k_updateFstabMountPointsCache files ?c0)"
  have i: "\<not> m_fstabCacheValid ?c0" "\<not> m_mtabCacheValid ?c0"
    "m_fstabFstypeCache ?c0 dev = Some t"
    using t by (simp_all add: flushFstabCache_def flushMtabCache_def)
  from a have f: "fstab files = Some es" and m: "mtab files = Some ms" by simp_all
  note b = both_parsed [OF i(1,2) f m]
  have mp: "mountPoints files dev ?c0 = ([], ?c3)"
    using a by (simp add: mountPoints_def Let_def b multi_values_map removeDuplicates_def)
  have op: "options files dev ?c3 = ([], ?c3)"
    using a by (simp add: options_def Let_def update_fstab_valid b multi_values_options)
  have ft: "fstype files dev ?c3 = (t, ?c3)"
    using a i(3) by (simp add: fstype_def Let_def update_fstab_valid b)
  show "fst (asks [(files, MountPoints dev), (files, Options dev), (files, Fstype dev)] ?c0)
      = [Strings [], Strings [], String t]"
    by (simp add: mp op ft)
qed

theorem fstype_cache_never_cleared_witness:
  "m_fstabFstypeCache cache_before ''fuse.encfs/home/u/Private'' = Some ''fuse.encfs''
   \<and> fstab files_after = Some [root_ext4, nfs_share] \<and> mtab files_after = Some [root_ext4]
   \<and> of_device ''fuse.encfs/home/u/Private'' (kept_fstab [root_ext4, nfs_share]) = []
   \<and> of_device ''fuse.encfs/home/u/Private'' (kept_mtab [root_ext4]) = []
   \<and> fst (asks [(files_after, MountPoints ''fuse.encfs/home/u/Private''),
                 (files_after, Options ''fuse.encfs/home/u/Private''),
                 (files_after, Fstype ''fuse.encfs/home/u/Private'')]
            (flushMtabCache (flushFstabCache cache_before)))
       = [Strings [], Strings [], String ''fuse.encfs'']
   \<and> fstab \<lparr>fstab = Some [], mtab = Some []\<rparr> = Some []
   \<and> k_updateFstabMountPointsCache \<lparr>fstab = Some [], mtab = Some []\<rparr>
        (flushFstabCache cache_before) = cache_before"
proof -
  have h: "m_fstabFstypeCache cache_before ''fuse.encfs/home/u/Private'' = Some ''fuse.encfs''"
    by (simp add: cache_before_def)
  have f: "fstab files_after = Some [root_ext4, nfs_share]" "mtab files_after = Some [root_ext4]"
    by (simp_all add: files_after_def)
  have k: "of_device ''fuse.encfs/home/u/Private'' (kept_fstab [root_ext4, nfs_share]) = []"
    "of_device ''fuse.encfs/home/u/Private'' (kept_mtab [root_ext4]) = []"
    by (simp_all add: kept_examples of_device_def device_of_examples)
  have c: "cache_before\<lparr>m_fstabCache := [], m_fstabOptionsCache := [], m_fstabCacheValid := True\<rparr>
      = cache_before"
    by (simp add: cache_before_def)
  note t = fstype_cache_never_cleared [of cache_before "''fuse.encfs/home/u/Private''"
      "''fuse.encfs''", rule_format, OF h]
  note t1 = t [of files_after "[root_ext4, nfs_share]" "[root_ext4]", THEN conjunct2,
      THEN conjunct2, THEN conjunct2, rule_format, OF conjI [OF f(1) conjI [OF f(2) conjI [OF k]]]]
  note t2 = t [of "\<lparr>fstab = Some [], mtab = Some []\<rparr>", THEN conjunct2, THEN conjunct2,
      THEN conjunct1, rule_format]
  from t1 t2 show ?thesis
    by (simp add: h f k c del: ask.simps asks.simps)
qed

end
